theory Spec2Isabelle
  imports Complex_Main "HOL-Library.Multiset"
begin

chapter \<open>The model\<close>

section \<open>Batch capacity from the endpoint limitations\<close>

text \<open>
  Source: \<open>src/protocol/common/utils/batch-rpc-calls.ts\<close>, function
  \<open>getBatchConfigFromLimitations\<close>.  The method names (\<open>RpcCallMethod\<close>) are declared
  in a file that is not part of the sources, so the method type is a type parameter.
  JavaScript numbers are modelled as \<open>int\<close>: every quantity here is a count, and
  \<open>Math.floor (a / b)\<close> with \<open>0 < b\<close> is \<open>a div b\<close>.
\<close>

datatype min_delay = NoLimit | DelayMs int

record 'm rpc_limitations =
  methods :: "'m \<Rightarrow> int option"
  minDelayBetweenCalls :: min_delay
  isArchiveNode :: bool

record batch_config =
  maxInputObjsPerBatch :: int
  canUseBatchProvider :: bool

text \<open>
  The \<open>for\<close> loop over \<open>Object.entries (rpcCallsPerInputObj)\<close>.  It carries the running
  \<open>maxInputObjsPerBatch\<close>; \<open>continue\<close> skips an unused method, \<open>break\<close> leaves the loop
  with \<open>canUseBatchProvider = false\<close> at the first used method whose limit is \<open>null\<close>.
\<close>

fun limitationsLoop :: "('m \<Rightarrow> int option) \<Rightarrow> ('m \<times> int) list \<Rightarrow> int \<Rightarrow> int \<times> bool" where
  "limitationsLoop ml [] cap = (cap, True)"
| "limitationsLoop ml ((method, cnt) # rest) cap =
     (if cnt \<le> 0 then limitationsLoop ml rest cap
      else (case ml method of
              None \<Rightarrow> (cap, False)
            | Some maxCount \<Rightarrow> limitationsLoop ml rest (min cap (maxCount div cnt))))"

definition getBatchConfigFromLimitations ::
  "int \<Rightarrow> ('m \<times> int) list \<Rightarrow> 'm rpc_limitations \<Rightarrow> batch_config" where
  "getBatchConfigFromLimitations maxInputObjs rpcCallsPerInputObj limitations =
     (case limitationsLoop (methods limitations) rpcCallsPerInputObj maxInputObjs of
        (cap, canUse) \<Rightarrow>
          if \<not> canUse then
            (if minDelayBetweenCalls limitations = NoLimit
             then \<lparr>maxInputObjsPerBatch = max 1 (maxInputObjs div 10), canUseBatchProvider = False\<rparr>
             else \<lparr>maxInputObjsPerBatch = 1, canUseBatchProvider = False\<rparr>)
          else \<lparr>maxInputObjsPerBatch = cap, canUseBatchProvider = True\<rparr>)"

text \<open>
  The capacity as the specification words it (section 4.6.1, step 1): the used methods
  are those with a positive count; if one of them has no limit declared (\<open>null\<close>) batching
  is disabled, otherwise the capacity is lowered method by method.
\<close>

definition usedMethods :: "('m \<times> int) list \<Rightarrow> ('m \<times> int) list" where
  "usedMethods calls = filter (\<lambda>(m, c). 0 < c) calls"

definition capacitySpec :: "int \<Rightarrow> ('m \<times> int) list \<Rightarrow> 'm rpc_limitations \<Rightarrow> batch_config" where
  "capacitySpec maxInputTake calls limitations =
     (if list_ex (\<lambda>(m, c). methods limitations m = None) (usedMethods calls)
      then \<lparr>maxInputObjsPerBatch =
               (if minDelayBetweenCalls limitations = NoLimit
                then max 1 (maxInputTake div 10) else 1),
            canUseBatchProvider = False\<rparr>
      else \<lparr>maxInputObjsPerBatch =
               fold (\<lambda>(m, c) cap. min cap (the (methods limitations m) div c))
                    (usedMethods calls) maxInputTake,
            canUseBatchProvider = True\<rparr>)"

section \<open>The batch-RPC operator\<close>

text \<open>
  Source: \<open>src/protocol/common/utils/batch-rpc-calls.ts\<close>, function \<open>batchRpcCalls$\<close>.

  The operator buffers its input into groups (\<open>Rx.bufferTime\<close>, then \<open>Rx.filter\<close> drops the
  empty groups) and handles the groups one after the other (\<open>Rx.concatMap\<close>).  How the
  timer cuts the input into groups is not modelled: the groups are the input of the model,
  each with the outcome of \<open>processBatch\<close> on its queries.  The callbacks \<open>getQuery\<close> and
  \<open>formatOutput\<close> are functions: they return a value and do not throw; \<open>emitErrors\<close> records
  the item it is called on.

  The errors thrown in the modelled code: \<open>ProgrammerError\<close>, \<open>ArchiveNodeNeededError\<close>
  and any other error of an RPC call in this operator; \<open>ConnectionTimeoutError\<close> and any
  other error in the update of the import state further down.
\<close>

datatype thrown =
  ProgrammerError | ArchiveNodeNeededError | RpcError | ConnectionTimeoutError | OtherError

text \<open>
  How a failed \<open>processBatch\<close> call is seen by \<open>work\<close>: it already is an
  \<open>ArchiveNodeNeededError\<close>, or \<open>isErrorDueToMissingDataFromNode\<close> recognises it, or it is
  any other error.
\<close>

datatype rpc_failure = IsArchiveNodeNeeded | MissingDataFromNode | OtherFailure

text \<open>
  \<open>work\<close>: the inner \<open>try\<close>/\<open>catch\<close> around \<open>processBatch\<close>.  The result map is a JavaScript
  \<open>Map\<close>, here a partial function from queries to responses.
\<close>

definition work ::
  "('q list \<Rightarrow> rpc_failure + ('q \<rightharpoonup> 'r)) \<Rightarrow> 'q list \<Rightarrow> thrown + ('q \<rightharpoonup> 'r)" where
  "work processBatch contractCalls =
     (case processBatch contractCalls of
        Inr res \<Rightarrow> Inr res
      | Inl IsArchiveNodeNeeded \<Rightarrow> Inl ArchiveNodeNeededError
      | Inl MissingDataFromNode \<Rightarrow> Inl ArchiveNodeNeededError
      | Inl OtherFailure \<Rightarrow> Inl RpcError)"

text \<open>
  \<open>callLockProtectedRpc\<close> (not part of the sources) runs \<open>work\<close> under the endpoint's lock
  and retries it; it returns what the last run of \<open>work\<close> returned or throws what it
  threw.  The model takes \<open>processBatch\<close> to be that last run.

  \<open>objAndCallParams.map (...)\<close> after the call: the first item whose query has no entry in
  the result map throws \<open>ProgrammerError\<close>, which ends the \<open>map\<close>.  An output is kept with
  the item it was formatted for, so that the theorems can say whose output it is.
\<close>

fun formatResults ::
  "('o \<Rightarrow> 'q) \<Rightarrow> ('o \<Rightarrow> 'r \<Rightarrow> 't) \<Rightarrow> ('q \<rightharpoonup> 'r) \<Rightarrow> 'o list \<Rightarrow> thrown + ('o \<times> 't) list" where
  "formatResults getQuery formatOutput resultMap [] = Inr []"
| "formatResults getQuery formatOutput resultMap (obj # objs) =
     (case resultMap (getQuery obj) of
        None \<Rightarrow> Inl ProgrammerError
      | Some res \<Rightarrow>
          (case formatResults getQuery formatOutput resultMap objs of
             Inl e \<Rightarrow> Inl e
           | Inr outs \<Rightarrow> Inr ((obj, formatOutput obj res) # outs)))"

text \<open>The body of the outer \<open>try\<close>: the protected call, then the lookup of every result.\<close>

definition tryBlock ::
  "('o \<Rightarrow> 'q) \<Rightarrow> ('o \<Rightarrow> 'r \<Rightarrow> 't) \<Rightarrow> ('q list \<Rightarrow> rpc_failure + ('q \<rightharpoonup> 'r)) \<Rightarrow> 'o list
   \<Rightarrow> thrown + ('o \<times> 't) list" where
  "tryBlock getQuery formatOutput processBatch objs =
     (case work processBatch (map getQuery objs) of
        Inl e \<Rightarrow> Inl e
      | Inr resultMap \<Rightarrow> formatResults getQuery formatOutput resultMap objs)"

text \<open>
  What a run of the operator leaves behind: the outputs sent downstream, the calls of
  \<open>emitErrors\<close> in order, and the error the stream ended with, if one escaped.
\<close>

record ('o, 't) emission =
  emitted :: "('o \<times> 't) list"
  emitErrorsCalls :: "'o list"
  streamError :: "thrown option"

text \<open>
  One group.  The \<open>catch (err)\<close> of the outer \<open>try\<close> has no condition: whatever was thrown
  in the block, \<open>emitErrors\<close> is called for every item of the group and \<open>Rx.EMPTY\<close> is
  returned, so nothing is sent downstream and nothing is thrown further.
\<close>

definition processGroup ::
  "('o \<Rightarrow> 'q) \<Rightarrow> ('o \<Rightarrow> 'r \<Rightarrow> 't) \<Rightarrow> ('q list \<Rightarrow> rpc_failure + ('q \<rightharpoonup> 'r)) \<Rightarrow> 'o list
   \<Rightarrow> ('o, 't) emission" where
  "processGroup getQuery formatOutput processBatch objs =
     (case tryBlock getQuery formatOutput processBatch objs of
        Inr outs \<Rightarrow> \<lparr>emitted = outs, emitErrorsCalls = [], streamError = None\<rparr>
      | Inl err \<Rightarrow> \<lparr>emitted = [], emitErrorsCalls = objs, streamError = None\<rparr>)"

text \<open>
  The operator on the buffered groups: empty groups are filtered out, the others are
  processed in order and their emissions concatenated (\<open>Rx.concatMap\<close>, \<open>Rx.mergeAll\<close>).
\<close>

fun batchRpcCalls ::
  "('o \<Rightarrow> 'q) \<Rightarrow> ('o \<Rightarrow> 'r \<Rightarrow> 't)
   \<Rightarrow> ('o list \<times> ('q list \<Rightarrow> rpc_failure + ('q \<rightharpoonup> 'r))) list \<Rightarrow> ('o, 't) emission" where
  "batchRpcCalls getQuery formatOutput [] =
     \<lparr>emitted = [], emitErrorsCalls = [], streamError = None\<rparr>"
| "batchRpcCalls getQuery formatOutput ((objs, processBatch) # groups) =
     (let rest = batchRpcCalls getQuery formatOutput groups in
      if length objs > 0 then
        (let g = processGroup getQuery formatOutput processBatch objs in
         \<lparr>emitted = emitted g @ emitted rest,
          emitErrorsCalls = emitErrorsCalls g @ emitErrorsCalls rest,
          streamError = None\<rparr>)
      else rest)"

section \<open>Merging the transfers of an owner inside a block\<close>

text \<open>
  Source: \<open>src/protocol/common/connector/erc20-transfers.ts\<close>, function
  \<open>fetchERC20TransferEvents\<close>.  The events the endpoint returns for the filters of a
  contract call are the input of the model.  A \<open>Decimal\<close> is modelled as a rational
  number (the rounding of \<open>decimal.js\<close> to its working precision is left out).
\<close>

record GetTransferCallParams =
  address :: string
  decimals :: nat
  fromBlock :: int
  toBlock :: int
  trackAddress :: "string option"

text \<open>An event as \<open>ethers\<close> decodes it: \<open>event.args\<close> holds \<open>from\<close>, \<open>to\<close> and \<open>value\<close>.\<close>

record RawEvent =
  raw_transactionHash :: string
  args_from :: string
  args_to :: string
  args_value :: int
  raw_blockNumber :: int
  raw_logIndex :: int

record TransferEvent =
  ev_transactionHash :: string
  ev_from :: string
  ev_to :: string
  ev_value :: rat
  ev_blockNumber :: int
  ev_logIndex :: int

text \<open>\<open>ERC20Transfer & { logIndex: number }\<close>.\<close>

record TransferWithLogIndex =
  chain :: string
  tokenAddress :: string
  tokenDecimals :: nat
  ownerAddress :: string
  blockNumber :: int
  transactionHash :: string
  amountTransfered :: rat
  logIndex :: int

text \<open>
  What the last \<open>map\<close> returns: the fields of a transfer (\<open>...transfers[0]\<close>), the
  transaction hash, and a field \<open>sharesBalanceDiff\<close> that the interface \<open>ERC20Transfer\<close>
  does not have.
\<close>

record MergedTransfer = TransferWithLogIndex +
  sharesBalanceDiff :: rat

text \<open>Raw events to \<open>TransferEvent\<close>s: the value is scaled by \<open>10 ^ (- decimals)\<close>.\<close>

definition toTransferEvent :: "GetTransferCallParams \<Rightarrow> RawEvent \<Rightarrow> TransferEvent" where
  "toTransferEvent contractCall event =
     \<lparr>ev_transactionHash = raw_transactionHash event,
      ev_from = args_from event,
      ev_to = args_to event,
      ev_value = (1 / 10 ^ decimals contractCall) * of_int (args_value event),
      ev_blockNumber = raw_blockNumber event,
      ev_logIndex = raw_logIndex event\<rparr>"

text \<open>Each event gives two transfers: the sender loses the value, the receiver gains it.\<close>

definition eventTransfers ::
  "string \<Rightarrow> GetTransferCallParams \<Rightarrow> TransferEvent \<Rightarrow> TransferWithLogIndex list" where
  "eventTransfers chn contract event =
     [\<lparr>chain = chn, tokenAddress = address contract, tokenDecimals = decimals contract,
       ownerAddress = ev_from event, blockNumber = ev_blockNumber event,
       transactionHash = ev_transactionHash event, amountTransfered = - ev_value event,
       logIndex = ev_logIndex event\<rparr>,
      \<lparr>chain = chn, tokenAddress = address contract, tokenDecimals = decimals contract,
       ownerAddress = ev_to event, blockNumber = ev_blockNumber event,
       transactionHash = ev_transactionHash event, amountTransfered = ev_value event,
       logIndex = ev_logIndex event\<rparr>]"

text \<open>
  \<open>lodash\<close>'s \<open>groupBy\<close> followed by \<open>Object.values\<close>: the groups in the order in which
  their keys first occur, each group in the order of the input.  The key of the source is
  the text \<open>tokenAddress-ownerAddress-blockNumber\<close>; the model keeps the three parts as a
  triple.
\<close>

function groupByKey :: "('a \<Rightarrow> 'k) \<Rightarrow> 'a list \<Rightarrow> 'a list list" where
  "groupByKey f [] = []"
| "groupByKey f (x # xs) =
     (x # filter (\<lambda>y. f y = f x) xs) # groupByKey f (filter (\<lambda>y. f y \<noteq> f x) xs)"
  by pat_completeness auto

termination
  by (relation "measure (\<lambda>(f, xs). length xs)") (auto simp: less_Suc_eq_le)

definition transferKey :: "TransferWithLogIndex \<Rightarrow> string \<times> string \<times> int" where
  "transferKey t = (tokenAddress t, ownerAddress t, blockNumber t)"

text \<open>The loop that adds up the amounts of a group, starting from \<open>new Decimal (0)\<close>.\<close>

definition totalDiffOf :: "TransferWithLogIndex list \<Rightarrow> rat" where
  "totalDiffOf transfers = fold (\<lambda>transfer totalDiff. totalDiff + amountTransfered transfer) transfers 0"

text \<open>
  \<open>transfers.sort ((a, b) => b.logIndex - a.logIndex)\<close>: a stable sort by decreasing log
  index.  It sorts the array in place, and the object literal that follows reads
  \<open>transfers[0]\<close> after the sort.
\<close>

definition sortByLogIndexDesc :: "TransferWithLogIndex list \<Rightarrow> TransferWithLogIndex list" where
  "sortByLogIndexDesc transfers = sort_key (\<lambda>t. - logIndex t) transfers"

definition mergeGroup :: "TransferWithLogIndex list \<Rightarrow> MergedTransfer" where
  "mergeGroup transfers =
     (let totalDiff = totalDiffOf transfers;
          sorted = sortByLogIndexDesc transfers;
          lastTrxHash = transactionHash (hd sorted)
      in TransferWithLogIndex.extend
           ((hd sorted)\<lparr>transactionHash := lastTrxHash\<rparr>)
           (MergedTransfer.fields totalDiff))"

text \<open>
  The whole function.  For every contract call there are two lists of events (the two
  filters when an address is tracked, otherwise all transfers and an empty list).
\<close>

definition fetchERC20TransferEvents ::
  "string \<Rightarrow> (GetTransferCallParams \<times> RawEvent list \<times> RawEvent list) list \<Rightarrow> MergedTransfer list" where
  "fetchERC20TransferEvents chn callsAndEvents =
     (let events = concat (map (\<lambda>(contract, evs1, evs2).
                      concat (map (eventTransfers chn contract \<circ> toTransferEvent contract) evs1) @
                      concat (map (eventTransfers chn contract \<circ> toTransferEvent contract) evs2))
                    callsAndEvents);
          transfersByOwnerAndBlock = groupByKey transferKey events
      in map mergeGroup transfersByOwnerAndBlock)"

section \<open>Range algebra\<close>

text \<open>
  A \<open>Range<number>\<close> is \<open>{from, to}\<close>, inclusive on both ends.  \<open>from\<close> is a keyword of
  the proof language, so the fields are called \<open>rfrom\<close> and \<open>rto\<close>.  Block numbers are
  modelled as \<open>int\<close>.

  The functions on ranges live in \<open>utils/range.ts\<close>, which is not part of the sources;
  the functions of this section are models of them.
\<close>

record block_range =
  rfrom :: int
  rto :: int

definition isValidRange :: "block_range \<Rightarrow> bool" where
  "isValidRange r = (rfrom r \<le> rto r)"

text \<open>Modelled from the spec: \<open>isInRange\<close>, the \<open>contains (v)\<close> of section 3.1 on inclusive ranges.\<close>

definition isInRange :: "block_range \<Rightarrow> int \<Rightarrow> bool" where
  "isInRange r v = (rfrom r \<le> v \<and> v \<le> rto r)"

text \<open>The blocks covered by a list of ranges; used in statements only.\<close>

definition blocksOf :: "block_range list \<Rightarrow> int set" where
  "blocksOf rs = {v. \<exists>r \<in> set rs. isInRange r v}"

text \<open>
  Modelled from the spec: \<open>rangeSort\<close>, "sort: by \<open>from\<close>", with ties left in their order
  (section 4.5).
\<close>

definition rangeSort :: "block_range list \<Rightarrow> block_range list" where
  "rangeSort rs = sort_key rfrom rs"

text \<open>
  Modelled from the spec: \<open>rangeMerge\<close>, "collapse overlapping/adjacent ranges in a list";
  two number ranges are adjacent when \<open>to + 1 = from\<close> (section 4.1).  The ranges are
  sorted and then folded from the left into the range being built.
\<close>

fun rangeMergeLoop :: "block_range \<Rightarrow> block_range list \<Rightarrow> block_range list" where
  "rangeMergeLoop cur [] = [cur]"
| "rangeMergeLoop cur (r # rs) =
     (if rfrom r > rto cur + 1 then cur # rangeMergeLoop r rs
      else rangeMergeLoop (cur\<lparr>rto := max (rto cur) (rto r)\<rparr>) rs)"

definition rangeMerge :: "block_range list \<Rightarrow> block_range list" where
  "rangeMerge rs = (case rangeSort rs of [] \<Rightarrow> [] | r # rest \<Rightarrow> rangeMergeLoop r rest)"

text \<open>
  Modelled from the spec: \<open>rangeExclude\<close>, the set difference of section 3.1 for one range
  and one excluded range: nothing, the range itself, one piece or two pieces.
\<close>

definition rangeExclude :: "block_range \<Rightarrow> block_range \<Rightarrow> block_range list" where
  "rangeExclude r ex =
     (if rto r < rfrom ex then [r]
      else if rfrom r > rto ex then [r]
      else if rfrom ex \<le> rfrom r \<and> rto r \<le> rto ex then []
      else if rfrom r < rfrom ex \<and> rto r > rto ex
        then [\<lparr>rfrom = rfrom r, rto = rfrom ex - 1\<rparr>, \<lparr>rfrom = rto ex + 1, rto = rto r\<rparr>]
      else if rfrom ex \<le> rfrom r \<and> rto r > rto ex
        then [\<lparr>rfrom = rto ex + 1, rto = rto r\<rparr>]
      else [\<lparr>rfrom = rfrom r, rto = rfrom ex - 1\<rparr>])"

text \<open>
  Modelled from the spec: \<open>rangeExcludeMany\<close>, the set difference for one range and a list
  of excluded ranges: the excluded ranges are taken out one after the other of every
  piece that is left.
\<close>

definition rangeExcludeStep :: "block_range \<Rightarrow> block_range list \<Rightarrow> block_range list" where
  "rangeExcludeStep ex acc = concat (map (\<lambda>q. rangeExclude q ex) acc)"

definition rangeExcludeMany :: "block_range \<Rightarrow> block_range list \<Rightarrow> block_range list" where
  "rangeExcludeMany r excl = fold rangeExcludeStep excl [r]"

text \<open>Modelled from the spec: \<open>rangeArrayExclude\<close>, "set-subtraction of a range list from another".\<close>

definition rangeArrayExclude :: "block_range list \<Rightarrow> block_range list \<Rightarrow> block_range list" where
  "rangeArrayExclude rs excl = concat (map (\<lambda>r. rangeExcludeMany r excl) rs)"

text \<open>
  Modelled from the spec: \<open>rangeExclude\<close> for the exclusion \<open>{from: n, to: Infinity}\<close>,
  which has no upper end: of the six cases above only three can apply.
\<close>

definition rangeExcludeFrom :: "block_range \<Rightarrow> int \<Rightarrow> block_range list" where
  "rangeExcludeFrom r n =
     (if rto r < n then [r]
      else if n \<le> rfrom r then []
      else [\<lparr>rfrom = rfrom r, rto = n - 1\<rparr>])"

text \<open>
  Modelled from the spec: \<open>rangeSplitToMaxLength\<close>, "any range longer than N becomes a chain
  of adjacent ranges of length \<open>\<le> N\<close>"; a range \<open>[from, to]\<close> covers \<open>to - from + 1\<close> blocks
  (section 6.2).  The chain is cut from the lower end.  The specification says nothing
  about \<open>N \<le> 0\<close>; the model leaves the range whole then.
\<close>

function rangeSplitToMaxLength :: "block_range \<Rightarrow> int \<Rightarrow> block_range list" where
  "rangeSplitToMaxLength r n =
     (if n \<le> 0 \<or> rto r - rfrom r + 1 \<le> n then [r]
      else \<lparr>rfrom = rfrom r, rto = rfrom r + n - 1\<rparr>
           # rangeSplitToMaxLength \<lparr>rfrom = rfrom r + n, rto = rto r\<rparr> n)"
  by pat_completeness auto

termination
  by (relation "measure (\<lambda>(r, n). nat (rto r - rfrom r + 1))") auto

declare rangeSplitToMaxLength.simps [simp del]

text \<open>Modelled from the spec: \<open>rangeSplitManyToMaxLength\<close>, the split of every range of a list.\<close>

definition rangeSplitManyToMaxLength :: "block_range list \<Rightarrow> int \<Rightarrow> block_range list" where
  "rangeSplitManyToMaxLength rs n = concat (map (\<lambda>r. rangeSplitToMaxLength r n) rs)"

text \<open>
  Modelled from the spec: \<open>rangeValueMax\<close>, the greatest of a list of values (it keeps the
  "latest block seen" of section 2); \<open>undefined\<close> for the empty list, here \<open>None\<close>.
\<close>

definition rangeValueMax :: "int list \<Rightarrow> int option" where
  "rangeValueMax vs = (case vs of [] \<Rightarrow> None | v # rest \<Rightarrow> Some (fold max rest v))"

text \<open>\<open>max\<close> of the package \<open>lodash\<close>: the greatest element of an array, \<open>undefined\<close> if it is empty.\<close>

definition lodashMax :: "int list \<Rightarrow> int option" where
  "lodashMax vs = (case vs of [] \<Rightarrow> None | v # rest \<Rightarrow> Some (fold max rest v))"

section \<open>Import state\<close>

text \<open>
  Source: the interfaces at the head of \<open>common/loader/import-state.ts\<close> (the first file of
  \<open>src/unnamed/part_000\<close>).  \<open>ImportRanges\<close> itself is declared in \<open>utils/import-ranges.ts\<close>,
  which is not part of the sources; its three fields are read by the planner.

  \<open>importData.type\<close> is the tag of the state.  The model keeps one record for the three
  variants: the fields of the block-number variants (\<open>product:investment\<close> and
  \<open>product:share-rate\<close>) are present in every state and are never read or written for
  \<open>oracle:price\<close>, whose ranges are ranges of timestamps.  Identifiers, chain and dates
  of creation play no part in what follows and are left out.
\<close>

record ImportRanges =
  coveredRanges :: "block_range list"
  toRetry :: "block_range list"
  lastImportDate :: int

datatype import_type = ProductInvestment | OraclePrice | ProductShareRate

record DbImportState =
  importKey :: string
  importType :: import_type
  contractCreatedAtBlock :: int
  chainLatestBlockNumber :: int
  ranges :: ImportRanges

definition isProductInvestmentImportState :: "DbImportState \<Rightarrow> bool" where
  "isProductInvestmentImportState o' = (importType o' = ProductInvestment)"

definition isOraclePriceImportState :: "DbImportState \<Rightarrow> bool" where
  "isOraclePriceImportState o' = (importType o' = OraclePrice)"

definition isProductShareRateImportState :: "DbImportState \<Rightarrow> bool" where
  "isProductShareRateImportState o' = (importType o' = ProductShareRate)"

section \<open>The query planner\<close>

text \<open>
  Source: \<open>src/protocol/common/connector/import-queries.ts\<close>.  The file holds two
  revisions of the module one after the other; the first one is modelled, and of the
  second one the function \<open>restrictRangesWithImportState\<close>, which differs.

  The constants of \<open>utils/config.ts\<close> (\<open>MAX_RANGES_PER_PRODUCT_TO_GENERATE\<close>,
  \<open>CHAIN_RPC_MAX_QUERY_BLOCKS\<close>, \<open>MS_PER_BLOCK_ESTIMATE\<close>) are parameters.
\<close>

subsection \<open>Restricting ranges with the import state\<close>

text \<open>
  First revision (lines 267 to 294).  The comment on the retried ranges reads "retry
  oldest first"; the code sorts them and reverses the result, as it does for the primary
  ranges.  \<open>ranges.slice (0, MAX)\<close> behind the test on the length is \<open>take\<close>.
\<close>

definition restrictRangesWithImportState ::
  "nat \<Rightarrow> block_range list \<Rightarrow> DbImportState \<Rightarrow> int \<Rightarrow> block_range list" where
  "restrictRangesWithImportState maxRangesToGenerate ranges0 importState maxRangeLength =
     (let ranges1 = rangeArrayExclude ranges0 (coveredRanges (ranges importState));
          ranges2 = rangeSplitManyToMaxLength ranges1 maxRangeLength;
          ranges3 = rev (rangeSort ranges2);
          rangesToRetry0 = rangeSplitManyToMaxLength (toRetry (ranges importState)) maxRangeLength;
          rangesToRetry = rev (rangeSort rangesToRetry0);
          ranges4 = ranges3 @ rangesToRetry
      in if length ranges4 > maxRangesToGenerate then take maxRangesToGenerate ranges4
         else ranges4)"

text \<open>Second revision (lines 569 to 592): the retried ranges are split and not sorted.\<close>

definition restrictRangesWithImportState_v2 ::
  "nat \<Rightarrow> block_range list \<Rightarrow> DbImportState \<Rightarrow> int \<Rightarrow> block_range list" where
  "restrictRangesWithImportState_v2 maxRangesToGenerate ranges0 importState maxRangeLength =
     (let ranges1 = rangeArrayExclude ranges0 (coveredRanges (ranges importState));
          ranges2 = rangeSplitManyToMaxLength ranges1 maxRangeLength;
          ranges3 = rev (rangeSort ranges2);
          rangesToRetry = rangeSplitManyToMaxLength (toRetry (ranges importState)) maxRangeLength;
          ranges4 = ranges3 @ rangesToRetry
      in if length ranges4 > maxRangesToGenerate then take maxRangesToGenerate ranges4
         else ranges4)"

subsection \<open>The latest-block query\<close>

text \<open>
  Modelled from the spec: \<open>samplingPeriodMs["1hour"]\<close>, one hour in milliseconds (the
  table is declared in \<open>types/sampling.ts\<close>, which is not part of the sources).
\<close>

definition samplingPeriodMs_1hour :: int where
  "samplingPeriodMs_1hour = 60 * 60 * 1000"

text \<open>
  \<open>Math.min\<close> of a finite number and a number that may be \<open>Infinity\<close> (\<open>None\<close>).
\<close>

definition minInfinity :: "int \<Rightarrow> int option \<Rightarrow> int" where
  "minInfinity a b = (case b of None \<Rightarrow> a | Some b' \<Rightarrow> min a b')"

text \<open>
  \<open>Math.floor (period / msPerBlock)\<close>: a division by zero gives \<open>Infinity\<close>.
\<close>

definition floorDivide :: "int \<Rightarrow> int \<Rightarrow> int option" where
  "floorDivide a b = (if b = 0 then None else Some (a div b))"

text \<open>
  The range computed in the \<open>mergeMap\<close> of \<open>addLatestBlockQuery$\<close> (lines 46 to 68).
  \<open>lastImportedBlockNumber ? ... : Infinity\<close> takes the second branch for \<open>null\<close> and
  for \<open>0\<close>.
\<close>

definition latestBlockQueryRange :: "int \<Rightarrow> int \<Rightarrow> int option \<Rightarrow> int \<Rightarrow> block_range" where
  "latestBlockQueryRange maxBlocksPerQuery msPerBlockEstimate lastImportedBlockNumber latestBlockNumber =
     (let period = samplingPeriodMs_1hour;
          periodInBlockCountEstimate = floorDivide period msPerBlockEstimate;
          diffBetweenLastImported =
            (case lastImportedBlockNumber of
               None \<Rightarrow> None
             | Some l \<Rightarrow> if l = 0 then None else Some (latestBlockNumber - (l + 1)));
          blockCountToFetch =
            minInfinity (minInfinity maxBlocksPerQuery periodInBlockCountEstimate)
                        diffBetweenLastImported;
          fromBlock = latestBlockNumber - blockCountToFetch;
          toBlock = latestBlockNumber;
          waitForBlockPropagation = 5
      in \<lparr>rfrom = fromBlock - waitForBlockPropagation, rto = toBlock - waitForBlockPropagation\<rparr>)"

text \<open>
  The operator on one buffered group of objects, once \<open>latestBlockNumber$\<close> has given the
  head of the chain: every object is formatted with the head and the same range.
\<close>

definition addLatestBlockQuery ::
  "int \<Rightarrow> int \<Rightarrow> int option \<Rightarrow> ('o \<Rightarrow> int \<Rightarrow> block_range \<Rightarrow> 't) \<Rightarrow> 'o list \<Rightarrow> int \<Rightarrow> 't list" where
  "addLatestBlockQuery maxBlocksPerQuery msPerBlockEstimate lastImportedBlockNumber formatOutput
       objs latestBlockNumber =
     map (\<lambda>obj. formatOutput obj latestBlockNumber
            (latestBlockQueryRange maxBlocksPerQuery msPerBlockEstimate lastImportedBlockNumber
               latestBlockNumber))
         objs"

subsection \<open>The historical block query\<close>

text \<open>
  The \<open>map\<close> of \<open>addHistoricalBlockQuery$\<close> (lines 88 to 113): the ranges generated for one
  object whose import state is \<open>importState\<close>, the head of the chain being
  \<open>latestBlockNumber\<close>.
\<close>

definition addHistoricalBlockQuery ::
  "nat \<Rightarrow> int \<Rightarrow> int option \<Rightarrow> (DbImportState \<Rightarrow> int) \<Rightarrow> DbImportState \<Rightarrow> int \<Rightarrow> block_range list" where
  "addHistoricalBlockQuery maxRangesToGenerate maxBlocksPerQuery forceCurrentBlockNumber
       getFirstBlockNumber importState latestBlockNumber =
     (let waitForBlockPropagation = 5;
          fullRange = \<lparr>rfrom = getFirstBlockNumber importState,
                       rto = latestBlockNumber - waitForBlockPropagation\<rparr>;
          ranges1 = restrictRangesWithImportState maxRangesToGenerate [fullRange] importState
                      maxBlocksPerQuery
      in case forceCurrentBlockNumber of
           None \<Rightarrow> ranges1
         | Some n \<Rightarrow> concat (map (\<lambda>r. rangeExcludeFrom r n) ranges1))"

subsection \<open>The regular-interval block ranges\<close>

text \<open>
  \<open>addRegularIntervalBlockRangesQueries\<close> (lines 166 to 265).  The block list that
  \<open>fetchChainBlockList$\<close> reads from the database is an input; of each entry only
  \<open>interpolated_block_number\<close> is used.

  "transform to ranges": the lower end is read from the sorted copy of the list, the
  upper end from \<open>item.blockList\<close>, the list as it came.
\<close>

definition blockListToRanges :: "int list \<Rightarrow> block_range list" where
  "blockListToRanges itemBlockList =
     (let blockList = sort itemBlockList
      in map (\<lambda>i. \<lparr>rfrom = blockList ! i, rto = itemBlockList ! (i + 1) - 1\<rparr>)
             [0 ..< length blockList - 1])"

definition addRegularIntervalBlockRangesQueries ::
  "nat \<Rightarrow> int \<Rightarrow> int \<Rightarrow> int \<Rightarrow> DbImportState \<Rightarrow> int list \<Rightarrow> int \<Rightarrow> block_range list" where
  "addRegularIntervalBlockRangesQueries maxRangesToGenerate maxBlocksPerQuery avgMsPerBlock
       maxTimeStepMs importState blockList0 latestBlockNumber =
     (let blockList = filter (\<lambda>b. b \<ge> contractCreatedAtBlock importState) blockList0;
          blockRanges1 = blockListToRanges blockList;
          blockRanges2 =
            (if length blockList = 0 then blockRanges1
             else [\<lparr>rfrom = contractCreatedAtBlock importState, rto = Min (set blockList) - 1\<rparr>]
                  @ blockRanges1
                  @ [\<lparr>rfrom = Max (set blockList) + 1, rto = latestBlockNumber\<rparr>]);
          blockRanges3 = filter (\<lambda>r. rfrom r \<le> rto r) blockRanges2;
          avgBlockPerTimeStep = floorDivide maxTimeStepMs avgMsPerBlock;
          rangeMaxLength = minInfinity maxBlocksPerQuery avgBlockPerTimeStep
      in restrictRangesWithImportState maxRangesToGenerate blockRanges3 importState rangeMaxLength)"

section \<open>Updating the import state\<close>

text \<open>
  Source: \<open>updateImportState$\<close> in \<open>common/loader/import-state.ts\<close> (the first file of
  \<open>src/unnamed/part_000\<close>, lines 147 to 307).

  An item of the stream, as the callbacks of the operator see it: \<open>getImportStateKey\<close>,
  \<open>getRange\<close> (with the kind of its bounds, number or date), \<open>isSuccess\<close>, and the field
  \<open>latest\<close> that \<open>mergeImportState\<close> reads after a cast to \<open>ImportRangeResult\<close>.
\<close>

record ImportRangeResult =
  targetKey :: string
  irange :: block_range
  rangeIsDate :: bool
  latest :: int
  success :: bool

text \<open>
  Modelled from the spec: \<open>updateImportRanges\<close> (\<open>utils/import-ranges.ts\<close>, not part of the
  sources).  Section 3.2: updating with \<open>{coveredRanges: C, successRanges: S, errorRanges: E}\<close>
  gives \<open>coveredRanges' = merge (coveredRanges \<union> C)\<close> and
  \<open>toRetry' = merge ((toRetry \<union> E) \ S)\<close>.
\<close>

definition updateImportRanges ::
  "ImportRanges \<Rightarrow> block_range list \<Rightarrow> block_range list \<Rightarrow> block_range list \<Rightarrow> int \<Rightarrow> ImportRanges" where
  "updateImportRanges rs covered successRanges errorRanges importDate =
     \<lparr>coveredRanges = rangeMerge (coveredRanges rs @ covered),
      toRetry = rangeMerge (rangeArrayExclude (toRetry rs @ errorRanges) successRanges),
      lastImportDate = importDate\<rparr>"

text \<open>
  \<open>mergeImportState\<close> (lines 160 to 202).  \<open>now\<close> is \<open>new Date ()\<close>.  The items are the
  items of one import key; \<open>groupBy\<close> never gives an empty group, and on an empty array
  the callback \<open>getRange\<close> would be applied to \<open>undefined\<close>.
  \<open>rangeValueMax (...) || 0\<close> is \<open>0\<close> when the maximum is \<open>undefined\<close> or \<open>0\<close>.
\<close>

fun mergeImportState :: "int \<Rightarrow> ImportRangeResult list \<Rightarrow> DbImportState \<Rightarrow> thrown + DbImportState" where
  "mergeImportState now [] importState = Inl OtherError"
| "mergeImportState now (item0 # rest) importState =
     (if (isProductInvestmentImportState importState \<and> rangeIsDate item0) \<or>
         (isOraclePriceImportState importState \<and> \<not> rangeIsDate item0) \<or>
         (isProductShareRateImportState importState \<and> rangeIsDate item0)
      then Inl ProgrammerError
      else
        (let items = item0 # rest;
             covered = map irange items;
             successRanges = rangeMerge (map irange (filter success items));
             errorRanges = rangeMerge (map irange (filter (\<lambda>item. \<not> success item) items));
             newRanges = updateImportRanges (ranges importState) covered successRanges errorRanges now;
             newImportState = importState\<lparr>ranges := newRanges\<rparr>
         in Inr (if isProductInvestmentImportState newImportState \<or>
                    isProductShareRateImportState newImportState
                 then newImportState\<lparr>chainLatestBlockNumber :=
                        (case rangeValueMax (map latest items @ [chainLatestBlockNumber newImportState]) of
                           None \<Rightarrow> 0
                         | Some v \<Rightarrow> if v = 0 then 0 else v)\<rparr>
                 else newImportState)))"

text \<open>
  A sequence of updates of one import key, each with its date: the state after the last
  one, or the first error.
\<close>

fun mergeImportStates ::
  "(int \<times> ImportRangeResult list) list \<Rightarrow> DbImportState \<Rightarrow> thrown + DbImportState" where
  "mergeImportStates [] importState = Inr importState"
| "mergeImportStates ((now, items) # updates) importState =
     (case mergeImportState now items importState of
        Inl e \<Rightarrow> Inl e
      | Inr newImportState \<Rightarrow> mergeImportStates updates newImportState)"

subsection \<open>The transaction and its retries\<close>

text \<open>
  The table \<open>import_state\<close>: a row per import key.  A row read by the \<open>SELECT\<close> has the key
  of the row as its \<open>importKey\<close>.
\<close>

type_synonym import_state_table = "string \<Rightarrow> DbImportState option"

definition selectImportState :: "import_state_table \<Rightarrow> string \<Rightarrow> DbImportState option" where
  "selectImportState db k = map_option (\<lambda>row. row\<lparr>importKey := k\<rparr>) (db k)"

text \<open>
  What happens to the connection during one run of the transaction: \<open>TimesOut n\<close> is a
  \<open>ConnectionTimeoutError\<close> that strikes when \<open>n\<close> of the \<open>UPDATE\<close> statements of the run have
  been executed (\<open>TimesOut 0\<close>: before any statement, while connecting or in the \<open>SELECT\<close>);
  \<open>Fails\<close> is some other database error before any statement; \<open>Connects\<close> is a
  connection that holds.
\<close>

datatype connection = TimesOut nat | Fails | Connects

text \<open>
  The merged states of the groups, in the order of \<open>Object.entries\<close> of the grouped items;
  a group whose key has no row, or whose merge fails, throws \<open>ProgrammerError\<close>.
\<close>

fun mergeGroups ::
  "int \<Rightarrow> import_state_table \<Rightarrow> ImportRangeResult list list \<Rightarrow> thrown + DbImportState list" where
  "mergeGroups now db [] = Inr []"
| "mergeGroups now db (sameKeyInputItems # groups) =
     (case selectImportState db (targetKey (hd sameKeyInputItems)) of
        None \<Rightarrow> Inl ProgrammerError
      | Some dbImportState \<Rightarrow>
          (case mergeImportState now sameKeyInputItems dbImportState of
             Inl e \<Rightarrow> Inl e
           | Inr newImportState \<Rightarrow>
               (case mergeGroups now db groups of
                  Inl e \<Rightarrow> Inl e
                | Inr newImportStates \<Rightarrow> Inr (newImportState # newImportStates))))"

text \<open>The \<open>UPDATE\<close> statements of the transaction.\<close>

definition writeImportStates :: "import_state_table \<Rightarrow> DbImportState list \<Rightarrow> import_state_table" where
  "writeImportStates db newImportStates =
     fold (\<lambda>data table. table(importKey data \<mapsto> data)) newImportStates db"

text \<open>
  The callback given to \<open>db_transaction\<close> (lines 218 to 255), on the table as the
  transaction sees it: the \<open>SELECT\<close>, the merge of every group, which may throw, then the
  \<open>UPDATE\<close> statements.  It returns what the callback returned or threw, and the table
  with the statements executed so far.  A timeout in the middle of the \<open>UPDATE\<close>
  statements finds the first \<open>n\<close> of them executed.
\<close>

definition transactionBody ::
  "connection \<Rightarrow> int \<Rightarrow> ImportRangeResult list \<Rightarrow> import_state_table
   \<Rightarrow> (thrown + DbImportState list) \<times> import_state_table" where
  "transactionBody conn now items client =
     (case conn of
        Fails \<Rightarrow> (Inl OtherError, client)
      | TimesOut n \<Rightarrow>
          if n = 0 then (Inl ConnectionTimeoutError, client)
          else (case mergeGroups now client (groupByKey targetKey items) of
                  Inl e \<Rightarrow> (Inl e, client)
                | Inr newImportStates \<Rightarrow>
                    (Inl ConnectionTimeoutError,
                     writeImportStates client (take n newImportStates)))
      | Connects \<Rightarrow>
          (case mergeGroups now client (groupByKey targetKey items) of
             Inl e \<Rightarrow> (Inl e, client)
           | Inr newImportStates \<Rightarrow>
               (Inr newImportStates, writeImportStates client newImportStates)))"

text \<open>
  Modelled from the spec: \<open>db_transaction\<close> (\<open>utils/db\<close>, not part of the sources), the
  ``serializable-equivalent transaction'' of the import-state store.  The statements of
  the callback take effect when the callback returns; when it throws, the transaction is
  rolled back: the table is as it was before the transaction, and the error is thrown on.
\<close>

definition db_transaction ::
  "('s \<Rightarrow> (thrown + 'a) \<times> 's) \<Rightarrow> 's \<Rightarrow> (thrown + 'a) \<times> 's" where
  "db_transaction body table =
     (case body table of
        (Inr v, table') \<Rightarrow> (Inr v, table')
      | (Inl e, table') \<Rightarrow> (Inl e, table))"

text \<open>
  \<open>work\<close>: one run of the transaction on the table.  It returns the new states or what it
  threw, and the table after the run.
\<close>

definition updateTransaction ::
  "connection \<Rightarrow> int \<Rightarrow> ImportRangeResult list \<Rightarrow> import_state_table
   \<Rightarrow> (thrown + DbImportState list) \<times> import_state_table" where
  "updateTransaction conn now items = db_transaction (transactionBody conn now items)"

text \<open>
  The retry loop of \<open>backOff\<close> (package \<open>exponential-backoff\<close>): the request is run; when it
  throws, the number of attempts is increased and the error is thrown on if \<open>retry\<close>
  refuses it or the number of attempts has reached \<open>numOfAttempts\<close>.  \<open>request k s\<close> is the
  outcome of run number \<open>k\<close> (from 0) in the state \<open>s\<close> that the runs before it have left,
  with the state that it leaves.  The result comes with the number of runs made and the
  final state.  The delays between the runs (\<open>startingDelay\<close>, \<open>timeMultiple\<close>, \<open>maxDelay\<close>,
  \<open>jitter\<close>) are not modelled.
\<close>

function backOffLoop ::
  "nat \<Rightarrow> (thrown \<Rightarrow> bool) \<Rightarrow> (nat \<Rightarrow> 's \<Rightarrow> (thrown + 'a) \<times> 's) \<Rightarrow> nat \<Rightarrow> 's
   \<Rightarrow> (thrown + 'a) \<times> nat \<times> 's" where
  "backOffLoop numOfAttempts retry request attemptNumber s =
     (if attemptNumber \<ge> numOfAttempts then (Inl OtherError, attemptNumber, s)
      else (case request attemptNumber s of
              (Inr v, s') \<Rightarrow> (Inr v, attemptNumber + 1, s')
            | (Inl e, s') \<Rightarrow>
                if \<not> retry e \<or> attemptNumber + 1 \<ge> numOfAttempts
                then (Inl e, attemptNumber + 1, s')
                else backOffLoop numOfAttempts retry request (attemptNumber + 1) s'))"
  by pat_completeness auto

termination
  by (relation "measure (\<lambda>(n, retry, request, k, s). n - k)") auto

declare backOffLoop.simps [simp del]

definition backOff ::
  "nat \<Rightarrow> (thrown \<Rightarrow> bool) \<Rightarrow> (nat \<Rightarrow> 's \<Rightarrow> (thrown + 'a) \<times> 's) \<Rightarrow> 's
   \<Rightarrow> (thrown + 'a) \<times> nat \<times> 's" where
  "backOff numOfAttempts retry request s = backOffLoop numOfAttempts retry request 0 s"

text \<open>
  What the operator leaves behind for one buffered group of items: the outputs, the calls
  of \<open>emitErrors\<close>, the error that escaped, the table, and the number of runs of the
  transaction.
\<close>

record 't update_outcome =
  upd_outputs :: "'t list"
  upd_emitErrors :: "ImportRangeResult list"
  upd_thrown :: "thrown option"
  upd_table :: import_state_table
  upd_attempts :: nat

text \<open>
  \<open>items.map (...)\<close> after a successful transaction: the new state of the key of each
  item is looked up in \<open>keyBy (newImportStates, "importKey")\<close>, where a later state of the
  same key replaces an earlier one.
\<close>

definition keyByImportKey :: "DbImportState list \<Rightarrow> string \<Rightarrow> DbImportState option" where
  "keyByImportKey newImportStates = fold (\<lambda>st m. m(importKey st \<mapsto> st)) newImportStates Map.empty"

fun formatUpdated ::
  "(ImportRangeResult \<Rightarrow> DbImportState \<Rightarrow> 't) \<Rightarrow> (string \<Rightarrow> DbImportState option)
   \<Rightarrow> ImportRangeResult list \<Rightarrow> thrown + 't list" where
  "formatUpdated formatOutput resultMap [] = Inr []"
| "formatUpdated formatOutput resultMap (item # items) =
     (case resultMap (targetKey item) of
        None \<Rightarrow> Inl ProgrammerError
      | Some importState \<Rightarrow>
          (case formatUpdated formatOutput resultMap items of
             Inl e \<Rightarrow> Inl e
           | Inr outs \<Rightarrow> Inr (formatOutput item importState # outs)))"

text \<open>
  The \<open>mergeMap\<close> of \<open>updateImportState$\<close> on one group (lines 211 to 302).  \<open>conn k\<close> says
  what happens to the connection in run \<open>k\<close> of the transaction; \<open>db\<close> is the table before
  the first run, and the table of the outcome is the one that the runs have left.  The
  \<open>catch\<close> handles \<open>ConnectionTimeoutError\<close> and throws every other error on.
\<close>

definition updateImportState ::
  "(ImportRangeResult \<Rightarrow> DbImportState \<Rightarrow> 't) \<Rightarrow> (nat \<Rightarrow> connection) \<Rightarrow> int
   \<Rightarrow> import_state_table \<Rightarrow> ImportRangeResult list \<Rightarrow> 't update_outcome" where
  "updateImportState formatOutput conn now db items =
     (case backOff 10 (\<lambda>error. error = ConnectionTimeoutError)
             (\<lambda>k. updateTransaction (conn k) now items) db of
        (Inr newImportStates, attempts, db') \<Rightarrow>
          (case formatUpdated formatOutput (keyByImportKey newImportStates) items of
             Inr outs \<Rightarrow> \<lparr>upd_outputs = outs, upd_emitErrors = [], upd_thrown = None,
                          upd_table = db', upd_attempts = attempts\<rparr>
           | Inl e \<Rightarrow> \<lparr>upd_outputs = [], upd_emitErrors = [], upd_thrown = Some e,
                       upd_table = db', upd_attempts = attempts\<rparr>)
      | (Inl error, attempts, db') \<Rightarrow>
          if error = ConnectionTimeoutError
          then \<lparr>upd_outputs = [], upd_emitErrors = items, upd_thrown = None,
                upd_table = db', upd_attempts = attempts\<rparr>
          else \<lparr>upd_outputs = [], upd_emitErrors = [], upd_thrown = Some error,
                upd_table = db', upd_attempts = attempts\<rparr>)"

subsection \<open>Notions for the statements about the ranges\<close>

text \<open>
  A list of ranges is merged and sorted when every range ends more than one block before
  each later range starts: the ranges are in increasing order, do not overlap and are
  not adjacent.
\<close>

definition isMergedSorted :: "block_range list \<Rightarrow> bool" where
  "isMergedSorted rs = sorted_wrt (\<lambda>a b. rto a + 1 < rfrom b) rs"

definition successItems :: "ImportRangeResult list \<Rightarrow> block_range list" where
  "successItems items = map irange (filter success items)"

definition errorItems :: "ImportRangeResult list \<Rightarrow> block_range list" where
  "errorItems items = map irange (filter (\<lambda>item. \<not> success item) items)"

section \<open>The import status of the earlier schema\<close>

text \<open>
  Source: \<open>src/protocol/common/loader/block-ranges-import-status.ts\<close>, the callback
  \<open>mergeImportStatus\<close> of \<open>updateBlockRangesImportStatus$\<close> (lines 67 to 123).  The status
  of a product holds one covered range and the ranges to retry.
\<close>

record BlockRangesImportStatus =
  status_chainLatestBlockNumber :: int
  status_contractCreatedAtBlock :: int
  coveredBlockRange :: block_range
  blockRangesToRetry :: "block_range list"

record ProductImportQuery =
  blockRange :: block_range
  latestBlockNumber :: int
  querySuccess :: bool

text \<open>
  The \<open>for\<close> loop over the items: a success takes its range out of every range to
  retry, an error pushes its range.
\<close>

definition retryLoop :: "ProductImportQuery list \<Rightarrow> block_range list \<Rightarrow> block_range list" where
  "retryLoop items toRetry0 =
     fold (\<lambda>item acc.
             if querySuccess item
             then concat (map (\<lambda>range. rangeExclude range (blockRange item)) acc)
             else acc @ [blockRange item])
          items toRetry0"

text \<open>
  \<open>rangeMerge\<close> of a non-empty list is not empty, so \<open>mergedRange[0]\<close> is a range.
  \<open>max (...) || 0\<close> and \<open>... || 0\<close> are \<open>0\<close> for \<open>undefined\<close> and for \<open>0\<close>.
\<close>

definition mergeImportStatus ::
  "ProductImportQuery list \<Rightarrow> BlockRangesImportStatus \<Rightarrow> BlockRangesImportStatus" where
  "mergeImportStatus items importStatus =
     (let blockRanges = map blockRange items;
          mergedRange = rangeMerge (coveredBlockRange importStatus # blockRanges);
          retried = rangeMerge (retryLoop items (blockRangesToRetry importStatus));
          seen = (case lodashMax (map latestBlockNumber items) of None \<Rightarrow> 0 | Some v \<Rightarrow> v)
      in importStatus
           \<lparr>coveredBlockRange := hd mergedRange,
            blockRangesToRetry := retried,
            status_chainLatestBlockNumber := max seen (status_chainLatestBlockNumber importStatus)\<rparr>)"

chapter \<open>Properties\<close>

section \<open>Batch capacity from the endpoint limitations\<close>

subsection \<open>The loop against the specification's wording\<close>

lemma limitationsLoop_null:
  "list_ex (\<lambda>(m, c). ml m = None) (usedMethods calls) \<Longrightarrow>
   snd (limitationsLoop ml calls cap) = False"
  by (induction ml calls cap rule: limitationsLoop.induct)
     (auto simp: usedMethods_def split: option.splits if_splits)

lemma limitationsLoop_all_limited:
  "\<not> list_ex (\<lambda>(m, c). ml m = None) (usedMethods calls) \<Longrightarrow>
   limitationsLoop ml calls cap =
     (fold (\<lambda>(m, c) cap. min cap (the (ml m) div c)) (usedMethods calls) cap, True)"
  by (induction ml calls cap rule: limitationsLoop.induct)
     (auto simp: usedMethods_def split: option.splits if_splits)

text \<open>
  Claim C7.  For every declaration of calls per input object and every set of endpoint
  limitations, the batch configuration computed by \<open>getBatchConfigFromLimitations\<close> is the
  one the specification describes: the capacity starts at \<open>maxInputTake\<close> and is lowered
  to \<open>min cap (limit div count)\<close> for each used method; a used method without a limit
  disables the batch provider, and the capacity is then \<open>max 1 (maxInputTake div 10)\<close>
  for an endpoint without rate limit and \<open>1\<close> otherwise.
\<close>

theorem getBatchConfigFromLimitations_spec:
  "getBatchConfigFromLimitations maxInputTake calls limitations =
   capacitySpec maxInputTake calls limitations"
proof (cases "list_ex (\<lambda>(m, c). methods limitations m = None) (usedMethods calls)")
  case True
  then have "snd (limitationsLoop (methods limitations) calls maxInputTake) = False"
    by (rule limitationsLoop_null)
  then obtain cap where "limitationsLoop (methods limitations) calls maxInputTake = (cap, False)"
    by (cases "limitationsLoop (methods limitations) calls maxInputTake") simp
  with True show ?thesis
    by (simp add: getBatchConfigFromLimitations_def capacitySpec_def)
next
  case False
  then have "limitationsLoop (methods limitations) calls maxInputTake =
     (fold (\<lambda>(m, c) cap. min cap (the (methods limitations m) div c))
           (usedMethods calls) maxInputTake, True)"
    by (rule limitationsLoop_all_limited)
  with False show ?thesis
    by (simp add: getBatchConfigFromLimitations_def capacitySpec_def)
qed

text \<open>
  The scenario of the specification: ten items are taken from the input, each needs one
  \<open>eth_getLogs\<close> call, and the endpoint accepts five such calls per batch.  The capacity
  is five and the batch provider stays in use.
\<close>

theorem getBatchConfigFromLimitations_scenario:
  "getBatchConfigFromLimitations 10 [(''eth_getLogs'', 1), (''eth_call'', 0)]
     \<lparr>methods = (\<lambda>m. if m = ''eth_getLogs'' then Some 5 else None),
      minDelayBetweenCalls = DelayMs 100, isArchiveNode = False\<rparr>
   = \<lparr>maxInputObjsPerBatch = 5, canUseBatchProvider = True\<rparr>"
  using getBatchConfigFromLimitations_spec
    [of 10 "[(''eth_getLogs'', 1), (''eth_call'', 0)]"
        "\<lparr>methods = (\<lambda>m. if m = ''eth_getLogs'' then Some 5 else None),
          minDelayBetweenCalls = DelayMs 100, isArchiveNode = False\<rparr>"]
  by (simp add: capacitySpec_def usedMethods_def)

section \<open>The batch-RPC operator\<close>

subsection \<open>Every item of a group has one fate\<close>

lemma formatResults_items:
  "formatResults gq fo m objs = Inr outs \<Longrightarrow> map fst outs = objs"
  by (induction objs arbitrary: outs) (auto split: option.splits sum.splits)

lemma formatResults_formatted:
  "formatResults gq fo m objs = Inr outs \<Longrightarrow>
   outs = map (\<lambda>obj. (obj, fo obj (the (m (gq obj))))) objs"
  by (induction objs arbitrary: outs) (auto split: option.splits sum.splits)

lemma formatResults_missing:
  "formatResults gq fo m objs = Inl e \<Longrightarrow> e = ProgrammerError \<and> (\<exists>obj\<in>set objs. m (gq obj) = None)"
  by (induction objs) (auto split: option.splits sum.splits)

lemma formatResults_complete:
  "obj \<in> set objs \<Longrightarrow> m (gq obj) = None \<Longrightarrow> formatResults gq fo m objs = Inl ProgrammerError"
proof (induction objs)
  case Nil
  then show ?case by simp
next
  case (Cons a objs)
  show ?case
  proof (cases "m (gq a)")
    case None
    then show ?thesis by simp
  next
    case (Some res)
    with Cons.prems have "obj \<in> set objs" by auto
    with Cons have "formatResults gq fo m objs = Inl ProgrammerError" by simp
    with Some show ?thesis by simp
  qed
qed

lemma processGroup_fate:
  "(map fst (emitted (processGroup gq fo pb objs)) = objs \<and>
    emitErrorsCalls (processGroup gq fo pb objs) = []) \<or>
   (emitted (processGroup gq fo pb objs) = [] \<and>
    emitErrorsCalls (processGroup gq fo pb objs) = objs)"
  by (auto simp: processGroup_def tryBlock_def split: sum.splits dest: formatResults_items)

lemma processGroup_mset:
  "mset (map fst (emitted (processGroup gq fo pb objs))) +
   mset (emitErrorsCalls (processGroup gq fo pb objs)) = mset objs"
proof -
  consider "map fst (emitted (processGroup gq fo pb objs)) = objs"
      and "emitErrorsCalls (processGroup gq fo pb objs) = []"
    | "emitted (processGroup gq fo pb objs) = []"
      and "emitErrorsCalls (processGroup gq fo pb objs) = objs"
    using processGroup_fate [of gq fo pb objs] by blast
  then show ?thesis
  proof cases
    case 1
    then show ?thesis by (simp only: mset.simps add_0_right)
  next
    case 2
    then show ?thesis by simp
  qed
qed

lemma batchRpcCalls_mset:
  "mset (map fst (emitted (batchRpcCalls gq fo groups))) +
   mset (emitErrorsCalls (batchRpcCalls gq fo groups)) = mset (concat (map fst groups))"
proof (induction groups)
  case Nil
  then show ?case by simp
next
  case (Cons g groups)
  obtain objs pb where g: "g = (objs, pb)" by (cases g)
  show ?case
  proof (cases "objs = []")
    case True
    with Cons g show ?thesis by simp
  next
    case False
    have "mset (map fst (emitted (batchRpcCalls gq fo (g # groups)))) +
          mset (emitErrorsCalls (batchRpcCalls gq fo (g # groups))) =
          (mset (map fst (emitted (processGroup gq fo pb objs))) +
           mset (emitErrorsCalls (processGroup gq fo pb objs))) +
          (mset (map fst (emitted (batchRpcCalls gq fo groups))) +
           mset (emitErrorsCalls (batchRpcCalls gq fo groups)))"
      using False g by (simp add: Let_def)
    also have "\<dots> = mset objs + mset (concat (map fst groups))"
      by (simp only: processGroup_mset Cons.IH)
    finally show ?thesis using g by simp
  qed
qed

lemma processGroup_formatted:
  assumes "(x, t) \<in> set (emitted (processGroup gq fo pb objs))"
  shows "\<exists>r. t = fo x r"
proof (cases "tryBlock gq fo pb objs")
  case (Inl e)
  with assms show ?thesis by (simp add: processGroup_def)
next
  case (Inr outs)
  then obtain m where "formatResults gq fo m objs = Inr outs"
    by (auto simp: tryBlock_def split: sum.splits)
  then have "outs = map (\<lambda>obj. (obj, fo obj (the (m (gq obj))))) objs"
    by (rule formatResults_formatted)
  with assms Inr show ?thesis by (auto simp: processGroup_def)
qed

lemma batchRpcCalls_formatted:
  "(x, t) \<in> set (emitted (batchRpcCalls gq fo groups)) \<Longrightarrow> \<exists>r. t = fo x r"
proof (induction groups)
  case Nil
  then show ?case by simp
next
  case (Cons g groups)
  obtain objs pb where g: "g = (objs, pb)" by (cases g)
  from Cons.prems g consider "(x, t) \<in> set (emitted (processGroup gq fo pb objs))"
    | "(x, t) \<in> set (emitted (batchRpcCalls gq fo groups))"
    by (auto simp: Let_def split: if_splits)
  then show ?case
  proof cases
    case 1
    then show ?thesis by (rule processGroup_formatted)
  next
    case 2
    then show ?thesis by (rule Cons.IH)
  qed
qed

lemma batchRpcCalls_no_streamError:
  "streamError (batchRpcCalls gq fo groups) = None"
  by (induction groups) (auto simp: Let_def)

text \<open>
  Claim C3.  Every item that enters the operator is accounted for exactly once: counting
  occurrences, the outputs emitted for an item and the calls of \<open>emitErrors\<close> on it add up
  to the number of times the item came in.  When the items are pairwise different this
  reads: for every item either exactly one output is emitted and \<open>emitErrors\<close> is not
  called on it, or \<open>emitErrors\<close> is called on it exactly once and no output is emitted.
  An output of an item is \<open>formatOutput\<close> applied to the item and a response, and no
  error ends the stream.
\<close>

theorem batchRpcCalls_one_fate:
  "(\<forall>x. count (mset (map fst (emitted (batchRpcCalls gq fo groups)))) x +
        count (mset (emitErrorsCalls (batchRpcCalls gq fo groups))) x =
        count (mset (concat (map fst groups))) x) \<and>
   (distinct (concat (map fst groups)) \<longrightarrow>
      (\<forall>x \<in> set (concat (map fst groups)).
         (count (mset (map fst (emitted (batchRpcCalls gq fo groups)))) x = 1 \<and>
          count (mset (emitErrorsCalls (batchRpcCalls gq fo groups))) x = 0) \<or>
         (count (mset (map fst (emitted (batchRpcCalls gq fo groups)))) x = 0 \<and>
          count (mset (emitErrorsCalls (batchRpcCalls gq fo groups))) x = 1))) \<and>
   (\<forall>(x, t) \<in> set (emitted (batchRpcCalls gq fo groups)). \<exists>r. t = fo x r) \<and>
   streamError (batchRpcCalls gq fo groups) = None"
proof -
  let ?out = "mset (map fst (emitted (batchRpcCalls gq fo groups)))"
  let ?err = "mset (emitErrorsCalls (batchRpcCalls gq fo groups))"
  let ?inp = "concat (map fst groups)"
  have total: "count ?out x + count ?err x = count (mset ?inp) x" for x
    using batchRpcCalls_mset [of gq fo groups]
    by (metis count_union)
  have "(count ?out x = 1 \<and> count ?err x = 0) \<or> (count ?out x = 0 \<and> count ?err x = 1)"
    if d: "distinct ?inp" and x: "x \<in> set ?inp" for x
  proof -
    from d x have "count (mset ?inp) x = 1"
      by (simp add: distinct_count_atmost_1)
    with total [of x] show ?thesis by arith
  qed
  moreover have "\<forall>(x, t) \<in> set (emitted (batchRpcCalls gq fo groups)). \<exists>r. t = fo x r"
    using batchRpcCalls_formatted [of _ _ gq fo groups] by blast
  moreover note batchRpcCalls_no_streamError [of gq fo groups]
  ultimately show ?thesis using total by blast
qed

text \<open>
  Three items in two groups: the call of the first group succeeds, that of the second
  fails.  Items 1 and 2 get an output each, item 3 gets one call of \<open>emitErrors\<close>.
\<close>

theorem batchRpcCalls_one_fate_witness:
  "distinct (concat (map fst
      [([1, 2 :: nat], \<lambda>qs :: nat list. Inr (\<lambda>q. Some (q + 10 :: nat))),
       ([3], \<lambda>qs. Inl OtherFailure)])) \<and>
   batchRpcCalls (\<lambda>obj. obj) (\<lambda>obj res. res)
      [([1, 2 :: nat], \<lambda>qs :: nat list. Inr (\<lambda>q. Some (q + 10 :: nat))),
       ([3], \<lambda>qs. Inl OtherFailure)]
     = \<lparr>emitted = [(1, 11), (2, 12)], emitErrorsCalls = [3], streamError = None\<rparr> \<and>
   count (mset (map fst (emitted (batchRpcCalls (\<lambda>obj. obj) (\<lambda>obj res. res)
      [([1, 2 :: nat], \<lambda>qs :: nat list. Inr (\<lambda>q. Some (q + 10 :: nat))),
       ([3], \<lambda>qs. Inl OtherFailure)])))) 3 = 0 \<and>
   count (mset (emitErrorsCalls (batchRpcCalls (\<lambda>obj. obj) (\<lambda>obj res. res)
      [([1, 2 :: nat], \<lambda>qs :: nat list. Inr (\<lambda>q. Some (q + 10 :: nat))),
       ([3], \<lambda>qs. Inl OtherFailure)]))) 3 = 1"
  using batchRpcCalls_one_fate [of "\<lambda>obj. obj" "\<lambda>obj res. res"
      "[([1, 2 :: nat], \<lambda>qs :: nat list. Inr (\<lambda>q. Some (q + 10 :: nat))),
        ([3], \<lambda>qs. Inl OtherFailure)]"]
  by (simp add: processGroup_def tryBlock_def work_def)

subsection \<open>A result missing from the map\<close>

text \<open>
  When the call succeeds and the map has no entry for the query of some item of the
  group, the \<open>ProgrammerError\<close> is thrown inside the outer \<open>try\<close> block and caught by its
  \<open>catch\<close>: \<open>emitErrors\<close> is called on every item of the group, as after a failed call,
  and the stream goes on.
\<close>

lemma processGroup_missing_result:
  assumes "pb (map gq objs) = Inr m" and "obj \<in> set objs" and "m (gq obj) = None"
  shows "tryBlock gq fo pb objs = Inl ProgrammerError"
    and "processGroup gq fo pb objs =
         \<lparr>emitted = [], emitErrorsCalls = objs, streamError = None\<rparr>"
proof -
  from assms(2,3) have "formatResults gq fo m objs = Inl ProgrammerError"
    by (rule formatResults_complete)
  with assms(1) show "tryBlock gq fo pb objs = Inl ProgrammerError"
    by (simp add: tryBlock_def work_def)
  then show "processGroup gq fo pb objs =
         \<lparr>emitted = [], emitErrorsCalls = objs, streamError = None\<rparr>"
    by (simp add: processGroup_def)
qed

text \<open>
  Claim C4 (the code diverges).  A group of two items; \<open>processBatch\<close> succeeds and
  returns a map with the result of the first query only.  The block throws
  \<open>ProgrammerError\<close>, and the operator answers as it does to a failed call: no output,
  \<open>emitErrors\<close> on both items (also on the one whose result was there), no stream error.
\<close>

theorem batchRpcCalls_missing_result_not_fatal:
  "tryBlock (\<lambda>obj :: nat. obj) (\<lambda>obj res :: nat. res)
      (\<lambda>qs. Inr [1 \<mapsto> 11]) [1, 2] = Inl ProgrammerError \<and>
   batchRpcCalls (\<lambda>obj :: nat. obj) (\<lambda>obj res :: nat. res)
      [([1, 2], \<lambda>qs. Inr [1 \<mapsto> 11])]
     = \<lparr>emitted = [], emitErrorsCalls = [1, 2], streamError = None\<rparr> \<and>
   batchRpcCalls (\<lambda>obj :: nat. obj) (\<lambda>obj res :: nat. res)
      [([1, 2], \<lambda>qs. Inl OtherFailure)]
     = \<lparr>emitted = [], emitErrorsCalls = [1, 2], streamError = None\<rparr>"
  by (simp add: processGroup_def tryBlock_def work_def)

section \<open>Merging the transfers of an owner inside a block\<close>

text \<open>
  Claim C5 (the code diverges).  Token \<open>T\<close> without decimals; in block 10 the owner \<open>O\<close>
  sends 100 to \<open>V\<close> (log index 1) and receives 30 from \<open>V\<close> (log index 2).  The two
  transfers of \<open>O\<close> are merged into one record whose transaction hash is the one of the
  event with the highest log index, but its \<open>amountTransfered\<close> is the amount of that
  event, 30, not the net sum; the net sum, -70, is stored in \<open>sharesBalanceDiff\<close>.
\<close>

theorem fetchERC20TransferEvents_net_amount_misplaced:
  "map (\<lambda>t. (ownerAddress t, transactionHash t, amountTransfered t, sharesBalanceDiff t))
     (fetchERC20TransferEvents ''bsc''
        [(\<lparr>address = ''T'', decimals = 0, fromBlock = 1, toBlock = 20, trackAddress = None\<rparr>,
          [\<lparr>raw_transactionHash = ''0xa'', args_from = ''O'', args_to = ''V'', args_value = 100,
            raw_blockNumber = 10, raw_logIndex = 1\<rparr>,
           \<lparr>raw_transactionHash = ''0xb'', args_from = ''V'', args_to = ''O'', args_value = 30,
            raw_blockNumber = 10, raw_logIndex = 2\<rparr>],
          [])])
   = [(''O'', ''0xb'', 30, - 70), (''V'', ''0xb'', - 30, 70)]"
  by (simp add: fetchERC20TransferEvents_def eventTransfers_def toTransferEvent_def
        transferKey_def mergeGroup_def totalDiffOf_def sortByLogIndexDesc_def
        TransferWithLogIndex.extend_def MergedTransfer.fields_def Let_def)

section \<open>Range algebra\<close>

subsection \<open>Facts about the range functions\<close>

lemma rangeSort_mset: "mset (rangeSort rs) = mset rs"
  by (simp add: rangeSort_def)

lemma rangeSort_set: "set (rangeSort rs) = set rs"
  by (simp add: rangeSort_def)

lemma rangeSort_sorted: "sorted (map rfrom (rangeSort rs))"
  by (simp add: rangeSort_def)

lemma rangeSort_rev_newest_first:
  "sorted_wrt (\<lambda>a b. rfrom b \<le> rfrom a) (rev (rangeSort rs))"
proof -
  have "sorted_wrt (\<lambda>a b. rfrom a \<le> rfrom b) (rangeSort rs)"
    using rangeSort_sorted [of rs] by (simp add: sorted_map)
  then show ?thesis by (simp add: sorted_wrt_rev)
qed

lemma rangeExclude_blocks:
  "blocksOf (rangeExclude r ex) = {v. isInRange r v \<and> \<not> isInRange ex v}"
  by (auto simp: blocksOf_def rangeExclude_def isInRange_def)

lemma rangeExclude_rto: "p \<in> set (rangeExclude r ex) \<Longrightarrow> rto p \<le> rto r"
  by (auto simp: rangeExclude_def split: if_splits)

lemma rangeExclude_valid:
  "isValidRange r \<Longrightarrow> p \<in> set (rangeExclude r ex) \<Longrightarrow> isValidRange p"
  by (auto simp: rangeExclude_def isValidRange_def split: if_splits)

lemma rangeExcludeFrom_is_rangeExclude:
  "rto r \<le> hi \<Longrightarrow> rfrom r \<le> hi \<Longrightarrow>
   rangeExclude r \<lparr>rfrom = n, rto = hi\<rparr> = rangeExcludeFrom r n"
  by (auto simp: rangeExclude_def rangeExcludeFrom_def)

lemma rangeExcludeFrom_rto: "p \<in> set (rangeExcludeFrom r n) \<Longrightarrow> rto p \<le> rto r"
  by (auto simp: rangeExcludeFrom_def split: if_splits)

lemma blocksOf_Nil [simp]: "blocksOf [] = {}"
  by (simp add: blocksOf_def)

lemma blocksOf_Cons: "blocksOf (r # rs) = {v. isInRange r v} \<union> blocksOf rs"
  by (auto simp: blocksOf_def)

lemma blocksOf_append: "blocksOf (xs @ ys) = blocksOf xs \<union> blocksOf ys"
  by (auto simp: blocksOf_def)

lemma blocksOf_concat_map: "blocksOf (concat (map f xs)) = (\<Union>x \<in> set xs. blocksOf (f x))"
  by (auto simp: blocksOf_def)

lemma blocksOf_set_cong: "set xs = set ys \<Longrightarrow> blocksOf xs = blocksOf ys"
  by (simp add: blocksOf_def)

lemma rangeExcludeStep_blocks:
  "blocksOf (rangeExcludeStep ex acc) = blocksOf acc - {v. isInRange ex v}"
  unfolding rangeExcludeStep_def
  by (auto simp: blocksOf_concat_map rangeExclude_blocks) (auto simp: blocksOf_def)

lemma excludeFold_blocks:
  "blocksOf (fold rangeExcludeStep excl acc) = blocksOf acc - blocksOf excl"
proof (induction excl arbitrary: acc)
  case Nil
  then show ?case by simp
next
  case (Cons ex excl)
  show ?case
    by (simp add: Cons.IH rangeExcludeStep_blocks blocksOf_Cons) blast
qed

lemma rangeExcludeMany_blocks:
  "blocksOf (rangeExcludeMany r excl) = {v. isInRange r v} - blocksOf excl"
  by (simp add: rangeExcludeMany_def excludeFold_blocks blocksOf_Cons)

lemma rangeArrayExclude_blocks:
  "blocksOf (rangeArrayExclude rs excl) = blocksOf rs - blocksOf excl"
  by (auto simp: rangeArrayExclude_def blocksOf_concat_map rangeExcludeMany_blocks)
     (auto simp: blocksOf_def)

lemma rangeExcludeStep_rto:
  "p \<in> set (rangeExcludeStep ex acc) \<Longrightarrow> \<exists>q \<in> set acc. rto p \<le> rto q"
  unfolding rangeExcludeStep_def by (auto dest: rangeExclude_rto)

lemma excludeFold_rto:
  "p \<in> set (fold rangeExcludeStep excl acc) \<Longrightarrow> \<exists>q \<in> set acc. rto p \<le> rto q"
proof (induction excl arbitrary: acc)
  case Nil
  then show ?case by auto
next
  case (Cons ex excl)
  from Cons.prems have "p \<in> set (fold rangeExcludeStep excl (rangeExcludeStep ex acc))"
    by simp
  then obtain q where q: "q \<in> set (rangeExcludeStep ex acc)" and pq: "rto p \<le> rto q"
    using Cons.IH by blast
  from q obtain a where a: "a \<in> set acc" and qa: "rto q \<le> rto a"
    using rangeExcludeStep_rto by blast
  from pq qa have "rto p \<le> rto a" by simp
  with a show ?case by blast
qed

lemma rangeArrayExclude_rto:
  assumes "p \<in> set (rangeArrayExclude rs excl)"
  shows "\<exists>r \<in> set rs. rto p \<le> rto r"
proof -
  from assms obtain r where r: "r \<in> set rs" and "p \<in> set (fold rangeExcludeStep excl [r])"
    by (auto simp: rangeArrayExclude_def rangeExcludeMany_def)
  then have "rto p \<le> rto r"
    using excludeFold_rto [of p excl "[r]"] by simp
  with r show ?thesis by blast
qed

lemma rangeExcludeStep_valid:
  "\<forall>q \<in> set acc. isValidRange q \<Longrightarrow> \<forall>p \<in> set (rangeExcludeStep ex acc). isValidRange p"
  unfolding rangeExcludeStep_def by (auto dest: rangeExclude_valid)

lemma excludeFold_valid:
  "\<forall>q \<in> set acc. isValidRange q \<Longrightarrow> \<forall>p \<in> set (fold rangeExcludeStep excl acc). isValidRange p"
proof (induction excl arbitrary: acc)
  case Nil
  then show ?case by simp
next
  case (Cons ex excl)
  from Cons.prems have "\<forall>q \<in> set (rangeExcludeStep ex acc). isValidRange q"
    by (rule rangeExcludeStep_valid)
  then have "\<forall>p \<in> set (fold rangeExcludeStep excl (rangeExcludeStep ex acc)). isValidRange p"
    by (rule Cons.IH)
  then show ?case by simp
qed

lemma rangeArrayExclude_valid:
  assumes "\<forall>r \<in> set rs. isValidRange r"
  shows "\<forall>p \<in> set (rangeArrayExclude rs excl). isValidRange p"
proof
  fix p assume "p \<in> set (rangeArrayExclude rs excl)"
  then obtain r where r: "r \<in> set rs" and p: "p \<in> set (fold rangeExcludeStep excl [r])"
    by (auto simp: rangeArrayExclude_def rangeExcludeMany_def)
  from r assms have "\<forall>q \<in> set [r]. isValidRange q" by simp
  then have "\<forall>p \<in> set (fold rangeExcludeStep excl [r]). isValidRange p"
    by (rule excludeFold_valid)
  with p show "isValidRange p" by blast
qed

lemma rangeSplitToMaxLength_rto:
  "p \<in> set (rangeSplitToMaxLength r n) \<Longrightarrow> rto p \<le> rto r"
proof (induction r n rule: rangeSplitToMaxLength.induct)
  case (1 r n)
  show ?case
  proof (cases "n \<le> 0 \<or> rto r - rfrom r + 1 \<le> n")
    case True
    with "1.prems" show ?thesis by (simp add: rangeSplitToMaxLength.simps [of r n])
  next
    case False
    with "1.prems" consider "p = \<lparr>rfrom = rfrom r, rto = rfrom r + n - 1\<rparr>"
      | "p \<in> set (rangeSplitToMaxLength \<lparr>rfrom = rfrom r + n, rto = rto r\<rparr> n)"
      by (auto simp: rangeSplitToMaxLength.simps [of r n])
    then show ?thesis
    proof cases
      case 1
      with False show ?thesis by simp
    next
      case 2
      with "1.IH" False show ?thesis by simp
    qed
  qed
qed

lemma rangeSplitManyToMaxLength_rto:
  "p \<in> set (rangeSplitManyToMaxLength rs n) \<Longrightarrow> \<exists>r \<in> set rs. rto p \<le> rto r"
  by (auto simp: rangeSplitManyToMaxLength_def dest: rangeSplitToMaxLength_rto)

text \<open>
  The model of the split has the two properties the specification gives it (section 4.1):
  no piece is longer than the maximum, and the pieces cover what the range covers.
\<close>

lemma rangeSplitToMaxLength_length:
  "0 < n \<Longrightarrow> p \<in> set (rangeSplitToMaxLength r n) \<Longrightarrow> rto p - rfrom p + 1 \<le> n"
proof (induction r n rule: rangeSplitToMaxLength.induct)
  case (1 r n)
  show ?case
  proof (cases "rto r - rfrom r + 1 \<le> n")
    case True
    with "1.prems" show ?thesis by (simp add: rangeSplitToMaxLength.simps [of r n])
  next
    case False
    with "1.prems" consider "p = \<lparr>rfrom = rfrom r, rto = rfrom r + n - 1\<rparr>"
      | "p \<in> set (rangeSplitToMaxLength \<lparr>rfrom = rfrom r + n, rto = rto r\<rparr> n)"
      by (auto simp: rangeSplitToMaxLength.simps [of r n])
    then show ?thesis
    proof cases
      case 1
      then show ?thesis by simp
    next
      case 2
      with "1.IH" "1.prems"(1) False show ?thesis by simp
    qed
  qed
qed

lemma rangeSplitToMaxLength_blocks:
  "blocksOf (rangeSplitToMaxLength r n) = {v. isInRange r v}"
proof (induction r n rule: rangeSplitToMaxLength.induct)
  case (1 r n)
  show ?case
  proof (cases "n \<le> 0 \<or> rto r - rfrom r + 1 \<le> n")
    case True
    then show ?thesis
      by (simp add: rangeSplitToMaxLength.simps [of r n] blocksOf_Cons)
  next
    case False
    with "1.IH" have ih: "blocksOf (rangeSplitToMaxLength \<lparr>rfrom = rfrom r + n, rto = rto r\<rparr> n) =
        {v. isInRange \<lparr>rfrom = rfrom r + n, rto = rto r\<rparr> v}"
      by simp
    from False have unf: "rangeSplitToMaxLength r n =
        \<lparr>rfrom = rfrom r, rto = rfrom r + n - 1\<rparr>
        # rangeSplitToMaxLength \<lparr>rfrom = rfrom r + n, rto = rto r\<rparr> n"
      by (subst rangeSplitToMaxLength.simps) simp
    have "{v. isInRange \<lparr>rfrom = rfrom r, rto = rfrom r + n - 1\<rparr> v} \<union>
          {v. isInRange \<lparr>rfrom = rfrom r + n, rto = rto r\<rparr> v} = {v. isInRange r v}"
      using False by (auto simp: isInRange_def)
    then show ?thesis
      by (simp only: unf blocksOf_Cons ih)
  qed
qed

section \<open>The query planner\<close>

subsection \<open>What the restriction returns\<close>

lemma restrictRangesWithImportState_take:
  "restrictRangesWithImportState m rs st n =
   take m (rev (rangeSort (rangeSplitManyToMaxLength
                  (rangeArrayExclude rs (coveredRanges (ranges st))) n))
           @ rev (rangeSort (rangeSplitManyToMaxLength (toRetry (ranges st)) n)))"
  by (simp add: restrictRangesWithImportState_def Let_def)

lemma restrictRangesWithImportState_v2_take:
  "restrictRangesWithImportState_v2 m rs st n =
   take m (rev (rangeSort (rangeSplitManyToMaxLength
                  (rangeArrayExclude rs (coveredRanges (ranges st))) n))
           @ rangeSplitManyToMaxLength (toRetry (ranges st)) n)"
  by (simp add: restrictRangesWithImportState_v2_def Let_def)

text \<open>
  Claim C1 (amended).  In both revisions the result is a prefix, of at most
  \<open>MAX_RANGES_PER_PRODUCT_TO_GENERATE\<close> ranges, of a list made of two parts: first the
  primary ranges (the given ranges minus the covered ones, split to the maximal length),
  newest first; then the ranges to retry, split to the maximal length.  The statement
  fixes the content of the second part and not its order.
\<close>

theorem restrictRangesWithImportState_primary_then_retry:
  "\<exists>primary retry retry2.
     restrictRangesWithImportState m rs st n = take m (primary @ retry) \<and>
     restrictRangesWithImportState_v2 m rs st n = take m (primary @ retry2) \<and>
     mset primary = mset (rangeSplitManyToMaxLength
                            (rangeArrayExclude rs (coveredRanges (ranges st))) n) \<and>
     sorted_wrt (\<lambda>a b. rfrom b \<le> rfrom a) primary \<and>
     mset retry = mset (rangeSplitManyToMaxLength (toRetry (ranges st)) n) \<and>
     mset retry2 = mset (rangeSplitManyToMaxLength (toRetry (ranges st)) n)"
proof -
  let ?primary = "rev (rangeSort (rangeSplitManyToMaxLength
                    (rangeArrayExclude rs (coveredRanges (ranges st))) n))"
  let ?retry = "rev (rangeSort (rangeSplitManyToMaxLength (toRetry (ranges st)) n))"
  let ?retry2 = "rangeSplitManyToMaxLength (toRetry (ranges st)) n"
  have "restrictRangesWithImportState m rs st n = take m (?primary @ ?retry)"
    by (rule restrictRangesWithImportState_take)
  moreover have "restrictRangesWithImportState_v2 m rs st n = take m (?primary @ ?retry2)"
    by (rule restrictRangesWithImportState_v2_take)
  moreover have "mset ?primary = mset (rangeSplitManyToMaxLength
                            (rangeArrayExclude rs (coveredRanges (ranges st))) n)"
    by (simp add: rangeSort_mset)
  moreover have "sorted_wrt (\<lambda>a b. rfrom b \<le> rfrom a) ?primary"
    by (rule rangeSort_rev_newest_first)
  moreover have "mset ?retry = mset ?retry2"
    by (simp add: rangeSort_mset)
  ultimately show ?thesis by blast
qed

text \<open>
  With at most two ranges to generate, nothing covered, one range to retry and a maximal
  length of 10, the range \<open>[0, 29]\<close> gives its two newest pieces and nothing else.
\<close>

theorem restrictRangesWithImportState_primary_then_retry_witness:
  "restrictRangesWithImportState 2 [\<lparr>rfrom = 0, rto = 29\<rparr>]
       \<lparr>importKey = ''product:investment:42'', importType = ProductInvestment,
        contractCreatedAtBlock = 0, chainLatestBlockNumber = 0,
        ranges = \<lparr>coveredRanges = [], toRetry = [\<lparr>rfrom = 40, rto = 45\<rparr>],
                  lastImportDate = 0\<rparr>\<rparr> 10
     = [\<lparr>rfrom = 20, rto = 29\<rparr>, \<lparr>rfrom = 10, rto = 19\<rparr>] \<and>
   (\<exists>primary retry retry2.
     restrictRangesWithImportState 2 [\<lparr>rfrom = 0, rto = 29\<rparr>]
       \<lparr>importKey = ''product:investment:42'', importType = ProductInvestment,
        contractCreatedAtBlock = 0, chainLatestBlockNumber = 0,
        ranges = \<lparr>coveredRanges = [], toRetry = [\<lparr>rfrom = 40, rto = 45\<rparr>],
                  lastImportDate = 0\<rparr>\<rparr> 10
       = take 2 (primary @ retry) \<and>
     restrictRangesWithImportState_v2 2 [\<lparr>rfrom = 0, rto = 29\<rparr>]
       \<lparr>importKey = ''product:investment:42'', importType = ProductInvestment,
        contractCreatedAtBlock = 0, chainLatestBlockNumber = 0,
        ranges = \<lparr>coveredRanges = [], toRetry = [\<lparr>rfrom = 40, rto = 45\<rparr>],
                  lastImportDate = 0\<rparr>\<rparr> 10
       = take 2 (primary @ retry2) \<and>
     mset primary = mset [\<lparr>rfrom = 0, rto = 9\<rparr>, \<lparr>rfrom = 10, rto = 19\<rparr>, \<lparr>rfrom = 20, rto = 29\<rparr>] \<and>
     sorted_wrt (\<lambda>a b. rfrom b \<le> rfrom a) primary \<and>
     mset retry = mset [\<lparr>rfrom = 40, rto = 45\<rparr>] \<and>
     mset retry2 = mset [\<lparr>rfrom = 40, rto = 45\<rparr>])"
proof -
  let ?st = "\<lparr>importKey = ''product:investment:42'', importType = ProductInvestment,
        contractCreatedAtBlock = 0, chainLatestBlockNumber = 0,
        ranges = \<lparr>coveredRanges = [], toRetry = [\<lparr>rfrom = 40, rto = 45\<rparr>],
                  lastImportDate = 0\<rparr>\<rparr>"
  have prim: "rangeSplitManyToMaxLength
          (rangeArrayExclude [\<lparr>rfrom = 0, rto = 29\<rparr>] (coveredRanges (ranges ?st))) 10
        = [\<lparr>rfrom = 0, rto = 9\<rparr>, \<lparr>rfrom = 10, rto = 19\<rparr>, \<lparr>rfrom = 20, rto = 29\<rparr>]"
    by code_simp
  have retr: "rangeSplitManyToMaxLength (toRetry (ranges ?st)) 10 = [\<lparr>rfrom = 40, rto = 45\<rparr>]"
    by code_simp
  have val: "restrictRangesWithImportState 2 [\<lparr>rfrom = 0, rto = 29\<rparr>] ?st 10
     = [\<lparr>rfrom = 20, rto = 29\<rparr>, \<lparr>rfrom = 10, rto = 19\<rparr>]"
    by code_simp
  from restrictRangesWithImportState_primary_then_retry [of 2 "[\<lparr>rfrom = 0, rto = 29\<rparr>]" ?st 10]
  have "\<exists>primary retry retry2.
     restrictRangesWithImportState 2 [\<lparr>rfrom = 0, rto = 29\<rparr>] ?st 10 = take 2 (primary @ retry) \<and>
     restrictRangesWithImportState_v2 2 [\<lparr>rfrom = 0, rto = 29\<rparr>] ?st 10 = take 2 (primary @ retry2) \<and>
     mset primary = mset [\<lparr>rfrom = 0, rto = 9\<rparr>, \<lparr>rfrom = 10, rto = 19\<rparr>, \<lparr>rfrom = 20, rto = 29\<rparr>] \<and>
     sorted_wrt (\<lambda>a b. rfrom b \<le> rfrom a) primary \<and>
     mset retry = mset [\<lparr>rfrom = 40, rto = 45\<rparr>] \<and>
     mset retry2 = mset [\<lparr>rfrom = 40, rto = 45\<rparr>]"
    unfolding prim retr .
  with val show ?thesis by blast
qed

text \<open>
  The claim as it is written fails in two ways.  The list is cut: with at most two
  ranges to generate, nothing covered, nothing to retry and a maximal length of 10, the
  range \<open>[0, 29]\<close> gives two ranges, not the three primary ranges.  And the ranges to
  retry do not come oldest first: with \<open>[1, 2]\<close> and \<open>[5, 6]\<close> to retry and nothing else
  to do, the result is not \<open>[1, 2]\<close> followed by \<open>[5, 6]\<close>.
\<close>

theorem restrictRangesWithImportState_not_as_claimed:
  "restrictRangesWithImportState 2 [\<lparr>rfrom = 0, rto = 29\<rparr>]
     \<lparr>importKey = ''product:investment:42'', importType = ProductInvestment,
      contractCreatedAtBlock = 0, chainLatestBlockNumber = 0,
      ranges = \<lparr>coveredRanges = [], toRetry = [], lastImportDate = 0\<rparr>\<rparr> 10
   \<noteq> rev (rangeSort (rangeSplitManyToMaxLength
                        (rangeArrayExclude [\<lparr>rfrom = 0, rto = 29\<rparr>] []) 10))
     @ rangeSort (rangeSplitManyToMaxLength [] 10) \<and>
   restrictRangesWithImportState 100 []
     \<lparr>importKey = ''product:investment:42'', importType = ProductInvestment,
      contractCreatedAtBlock = 0, chainLatestBlockNumber = 0,
      ranges = \<lparr>coveredRanges = [],
                toRetry = [\<lparr>rfrom = 1, rto = 2\<rparr>, \<lparr>rfrom = 5, rto = 6\<rparr>],
                lastImportDate = 0\<rparr>\<rparr> 10
   \<noteq> rev (rangeSort (rangeSplitManyToMaxLength (rangeArrayExclude [] []) 10))
     @ rangeSort (rangeSplitManyToMaxLength
                    [\<lparr>rfrom = 1, rto = 2\<rparr>, \<lparr>rfrom = 5, rto = 6\<rparr>] 10)"
  by code_simp

text \<open>
  The order of the retried ranges in the two revisions: the first returns the newer
  range first, the second returns the ranges in the order of the import state.
\<close>

lemma restrictRangesWithImportState_retry_order:
  "restrictRangesWithImportState 100 []
     \<lparr>importKey = ''product:investment:42'', importType = ProductInvestment,
      contractCreatedAtBlock = 0, chainLatestBlockNumber = 0,
      ranges = \<lparr>coveredRanges = [],
                toRetry = [\<lparr>rfrom = 1, rto = 2\<rparr>, \<lparr>rfrom = 5, rto = 6\<rparr>],
                lastImportDate = 0\<rparr>\<rparr> 10
   = [\<lparr>rfrom = 5, rto = 6\<rparr>, \<lparr>rfrom = 1, rto = 2\<rparr>]"
  "restrictRangesWithImportState_v2 100 []
     \<lparr>importKey = ''product:investment:42'', importType = ProductInvestment,
      contractCreatedAtBlock = 0, chainLatestBlockNumber = 0,
      ranges = \<lparr>coveredRanges = [],
                toRetry = [\<lparr>rfrom = 5, rto = 6\<rparr>, \<lparr>rfrom = 1, rto = 2\<rparr>],
                lastImportDate = 0\<rparr>\<rparr> 10
   = [\<lparr>rfrom = 5, rto = 6\<rparr>, \<lparr>rfrom = 1, rto = 2\<rparr>]"
  by code_simp+

subsection \<open>The propagation margin\<close>

lemma restrictRangesWithImportState_rto:
  assumes "q \<in> set (restrictRangesWithImportState m rs st n)"
  shows "(\<exists>r \<in> set rs. rto q \<le> rto r) \<or> (\<exists>t \<in> set (toRetry (ranges st)). rto q \<le> rto t)"
proof -
  from assms have "q \<in> set (rangeSplitManyToMaxLength
                        (rangeArrayExclude rs (coveredRanges (ranges st))) n)
      \<or> q \<in> set (rangeSplitManyToMaxLength (toRetry (ranges st)) n)"
    by (auto simp: restrictRangesWithImportState_take rangeSort_set dest!: in_set_takeD)
  then show ?thesis
  proof
    assume "q \<in> set (rangeSplitManyToMaxLength
                        (rangeArrayExclude rs (coveredRanges (ranges st))) n)"
    then obtain p where p: "p \<in> set (rangeArrayExclude rs (coveredRanges (ranges st)))"
      and qp: "rto q \<le> rto p"
      using rangeSplitManyToMaxLength_rto by blast
    from p obtain r where r: "r \<in> set rs" and pr: "rto p \<le> rto r"
      using rangeArrayExclude_rto by blast
    from qp pr have "rto q \<le> rto r" by simp
    with r show ?thesis by blast
  next
    assume "q \<in> set (rangeSplitManyToMaxLength (toRetry (ranges st)) n)"
    then show ?thesis
      using rangeSplitManyToMaxLength_rto by blast
  qed
qed

lemma addHistoricalBlockQuery_rto:
  assumes "r \<in> set (addHistoricalBlockQuery m maxBlocks force first st head)"
  shows "rto r \<le> head - 5 \<or> (\<exists>t \<in> set (toRetry (ranges st)). rto r \<le> rto t)"
proof -
  let ?full = "\<lparr>rfrom = first st, rto = head - 5\<rparr>"
  from assms obtain q where q: "q \<in> set (restrictRangesWithImportState m [?full] st maxBlocks)"
    and rq: "rto r \<le> rto q"
    by (cases force) (auto simp: addHistoricalBlockQuery_def Let_def dest: rangeExcludeFrom_rto)
  from restrictRangesWithImportState_rto [OF q]
  show ?thesis
  proof
    assume "\<exists>x \<in> set [?full]. rto q \<le> rto x"
    with rq show ?thesis by simp
  next
    assume "\<exists>t \<in> set (toRetry (ranges st)). rto q \<le> rto t"
    then obtain t where "t \<in> set (toRetry (ranges st))" "rto q \<le> rto t" by blast
    with rq show ?thesis by force
  qed
qed

lemma latestBlockQueryRange_rto:
  "rto (latestBlockQueryRange maxBlocks ms lastImported head) = head - 5"
  by (simp add: latestBlockQueryRange_def Let_def)

text \<open>
  Claim C6 (amended).  With the head of the chain \<open>head\<close> and the margin of 5 blocks: the
  range of the latest-block query ends at \<open>head - 5\<close>; and when the ranges to retry
  stored in the import state end at or below \<open>head - 5\<close>, every range of the historical
  block query ends at or below \<open>head - 5\<close>, so every block in it is at most \<open>head - 5\<close>.
  The ranges to retry are appended as they are stored.  The statement says nothing
  about the regular-interval query.
\<close>

theorem planner_margin:
  "rto (latestBlockQueryRange maxBlocks ms lastImported head) = head - 5 \<and>
   ((\<forall>t \<in> set (toRetry (ranges st)). rto t \<le> head - 5) \<longrightarrow>
    (\<forall>r \<in> set (addHistoricalBlockQuery m maxBlocks force first st head).
       rto r \<le> head - 5 \<and> (\<forall>b. isInRange r b \<longrightarrow> b \<le> head - 5)))"
proof (intro conjI impI ballI allI)
  show "rto (latestBlockQueryRange maxBlocks ms lastImported head) = head - 5"
    by (rule latestBlockQueryRange_rto)
next
  fix r
  assume retry: "\<forall>t \<in> set (toRetry (ranges st)). rto t \<le> head - 5"
    and r: "r \<in> set (addHistoricalBlockQuery m maxBlocks force first st head)"
  from addHistoricalBlockQuery_rto [OF r] retry
  show bound: "rto r \<le> head - 5" by force
  fix b assume "isInRange r b"
  with bound show "b \<le> head - 5" by (simp add: isInRange_def)
qed

text \<open>
  Head 1000, creation at block 900, \<open>[900, 950]\<close> covered, \<open>[910, 915]\<close> to retry, at most
  100 blocks per query: the gap up to block 995, then the range to retry.
\<close>

theorem planner_margin_witness:
  "list_all (\<lambda>t. rto t \<le> 1000 - 5) [\<lparr>rfrom = 910, rto = 915\<rparr>] \<and>
   addHistoricalBlockQuery 100 100 None contractCreatedAtBlock
     \<lparr>importKey = ''product:investment:42'', importType = ProductInvestment,
      contractCreatedAtBlock = 900, chainLatestBlockNumber = 0,
      ranges = \<lparr>coveredRanges = [\<lparr>rfrom = 900, rto = 950\<rparr>],
                toRetry = [\<lparr>rfrom = 910, rto = 915\<rparr>], lastImportDate = 0\<rparr>\<rparr> 1000
     = [\<lparr>rfrom = 951, rto = 995\<rparr>, \<lparr>rfrom = 910, rto = 915\<rparr>] \<and>
   list_all (\<lambda>r. rto r \<le> 1000 - 5)
     (addHistoricalBlockQuery 100 100 None contractCreatedAtBlock
       \<lparr>importKey = ''product:investment:42'', importType = ProductInvestment,
        contractCreatedAtBlock = 900, chainLatestBlockNumber = 0,
        ranges = \<lparr>coveredRanges = [\<lparr>rfrom = 900, rto = 950\<rparr>],
                  toRetry = [\<lparr>rfrom = 910, rto = 915\<rparr>], lastImportDate = 0\<rparr>\<rparr> 1000) \<and>
   rto (latestBlockQueryRange 100 3000 None 1000) = 1000 - 5"
proof -
  let ?st = "\<lparr>importKey = ''product:investment:42'', importType = ProductInvestment,
      contractCreatedAtBlock = 900, chainLatestBlockNumber = 0,
      ranges = \<lparr>coveredRanges = [\<lparr>rfrom = 900, rto = 950\<rparr>],
                toRetry = [\<lparr>rfrom = 910, rto = 915\<rparr>], lastImportDate = 0\<rparr>\<rparr>"
  have hyp: "\<forall>t \<in> set (toRetry (ranges ?st)). rto t \<le> 1000 - 5" by simp
  have val: "addHistoricalBlockQuery 100 100 None contractCreatedAtBlock ?st 1000
     = [\<lparr>rfrom = 951, rto = 995\<rparr>, \<lparr>rfrom = 910, rto = 915\<rparr>]"
    by code_simp
  from planner_margin [of 100 3000 None 1000 ?st 100 None contractCreatedAtBlock] hyp
  have "\<forall>r \<in> set (addHistoricalBlockQuery 100 100 None contractCreatedAtBlock ?st 1000).
          rto r \<le> 1000 - 5"
    and "rto (latestBlockQueryRange 100 3000 None 1000) = 1000 - 5"
    by blast+
  then show ?thesis using val by (simp add: list_all_iff)
qed

text \<open>
  The claim as it is written fails in two places.  The regular-interval query closes its
  last range at the head itself: with one sampled block, 100, and the head at 200 the
  range \<open>[101, 200]\<close> is emitted, which holds block 200.  And the historical query
  appends the ranges to retry unchanged: a stored range \<open>[996, 1000]\<close> is emitted with
  the head at 1000.
\<close>

theorem planner_margin_counterexample:
  "addRegularIntervalBlockRangesQueries 100 3000 3000 900000
     \<lparr>importKey = ''product:share-rate:42'', importType = ProductShareRate,
      contractCreatedAtBlock = 100, chainLatestBlockNumber = 0,
      ranges = \<lparr>coveredRanges = [], toRetry = [], lastImportDate = 0\<rparr>\<rparr> [100] 200
     = [\<lparr>rfrom = 101, rto = 200\<rparr>] \<and>
   isInRange \<lparr>rfrom = 101, rto = 200\<rparr> 200 \<and> \<not> (200 \<le> (200 :: int) - 5) \<and>
   addHistoricalBlockQuery 100 3000 None contractCreatedAtBlock
     \<lparr>importKey = ''product:investment:42'', importType = ProductInvestment,
      contractCreatedAtBlock = 100, chainLatestBlockNumber = 1000,
      ranges = \<lparr>coveredRanges = [\<lparr>rfrom = 100, rto = 1000\<rparr>],
                toRetry = [\<lparr>rfrom = 996, rto = 1000\<rparr>], lastImportDate = 0\<rparr>\<rparr> 1000
     = [\<lparr>rfrom = 996, rto = 1000\<rparr>] \<and>
   \<not> (rto \<lparr>rfrom = 996, rto = 1000\<rparr> \<le> 1000 - 5)"
  by code_simp

subsection \<open>The first latest-block query of a chain\<close>

text \<open>
  Claim C10.  When nothing was imported yet for the chain (\<open>getLastImportedBlock\<close> returns
  \<open>null\<close>), the width of the range is the smaller of the maximal number of blocks per
  query and the estimated number of blocks in one hour, and every object of the group is
  formatted with the range from \<open>head - width - 5\<close> to \<open>head - 5\<close>; the lower end is
  not clamped.  The estimate of the time per block is a positive number.
\<close>

theorem addLatestBlockQuery_nothing_imported:
  assumes "0 < msPerBlockEstimate"
  shows "addLatestBlockQuery maxBlocksPerQuery msPerBlockEstimate None formatOutput objs head =
         map (\<lambda>obj. formatOutput obj head
                \<lparr>rfrom = head - min maxBlocksPerQuery (60 * 60 * 1000 div msPerBlockEstimate) - 5,
                 rto = head - 5\<rparr>) objs"
  using assms
  by (simp add: addLatestBlockQuery_def latestBlockQueryRange_def samplingPeriodMs_1hour_def
        floorDivide_def minInfinity_def Let_def)

text \<open>
  Head at block 10, at most 3000 blocks per query, 3 seconds per block: the width is
  1200 and the range starts at block -1195, below zero.
\<close>

theorem addLatestBlockQuery_nothing_imported_witness:
  "(0 :: int) < 3000 \<and>
   addLatestBlockQuery 3000 3000 None (\<lambda>obj latest r. (obj, latest, r)) [''vault''] 10 =
     [(''vault'', 10, \<lparr>rfrom = - 1195, rto = 5\<rparr>)]"
  using addLatestBlockQuery_nothing_imported
    [of 3000 3000 "\<lambda>obj latest r. (obj, latest, r)" "[''vault'']" 10]
  by simp

section \<open>Updating the import state\<close>

subsection \<open>Facts about merging\<close>

lemma rangeMergeLoop_blocks:
  "sorted (map rfrom (cur # rs)) \<Longrightarrow> blocksOf (rangeMergeLoop cur rs) = blocksOf (cur # rs)"
proof (induction rs arbitrary: cur)
  case Nil
  then show ?case by simp
next
  case (Cons r rs)
  from Cons.prems have le: "rfrom cur \<le> rfrom r" and srt: "sorted (map rfrom (r # rs))"
    by simp_all
  show ?case
  proof (cases "rfrom r > rto cur + 1")
    case True
    with Cons.IH [OF srt] show ?thesis by (simp add: blocksOf_Cons)
  next
    case False
    let ?cur = "cur\<lparr>rto := max (rto cur) (rto r)\<rparr>"
    from Cons.prems have "sorted (map rfrom (?cur # rs))" by auto
    then have "blocksOf (rangeMergeLoop ?cur rs) = blocksOf (?cur # rs)"
      by (rule Cons.IH)
    moreover have "{v. isInRange ?cur v} = {v. isInRange cur v} \<union> {v. isInRange r v}"
      using le False by (auto simp: isInRange_def)
    ultimately show ?thesis using False by (simp add: blocksOf_Cons Un_assoc)
  qed
qed

lemma rangeMergeLoop_from:
  "sorted (map rfrom (cur # rs)) \<Longrightarrow> x \<in> set (rangeMergeLoop cur rs) \<Longrightarrow> rfrom cur \<le> rfrom x"
proof (induction rs arbitrary: cur)
  case Nil
  then show ?case by simp
next
  case (Cons r rs)
  from Cons.prems have le: "rfrom cur \<le> rfrom r" and srt: "sorted (map rfrom (r # rs))"
    by simp_all
  show ?case
  proof (cases "rfrom r > rto cur + 1")
    case True
    with Cons.prems(2) consider "x = cur" | "x \<in> set (rangeMergeLoop r rs)" by auto
    then show ?thesis
    proof cases
      case 1
      then show ?thesis by simp
    next
      case 2
      with Cons.IH [OF srt] le show ?thesis by force
    qed
  next
    case False
    let ?cur = "cur\<lparr>rto := max (rto cur) (rto r)\<rparr>"
    from Cons.prems have "sorted (map rfrom (?cur # rs))" by auto
    moreover from Cons.prems(2) False have "x \<in> set (rangeMergeLoop ?cur rs)" by simp
    ultimately have "rfrom ?cur \<le> rfrom x" by (rule Cons.IH)
    then show ?thesis by simp
  qed
qed

lemma rangeMergeLoop_chain:
  "sorted (map rfrom (cur # rs)) \<Longrightarrow>
   sorted_wrt (\<lambda>a b. rto a + 1 < rfrom b) (rangeMergeLoop cur rs)"
proof (induction rs arbitrary: cur)
  case Nil
  then show ?case by simp
next
  case (Cons r rs)
  from Cons.prems have srt: "sorted (map rfrom (r # rs))" by simp
  show ?case
  proof (cases "rfrom r > rto cur + 1")
    case True
    have "rto cur + 1 < rfrom x" if "x \<in> set (rangeMergeLoop r rs)" for x
      using rangeMergeLoop_from [OF srt that] True by simp
    with Cons.IH [OF srt] True show ?thesis by simp
  next
    case False
    let ?cur = "cur\<lparr>rto := max (rto cur) (rto r)\<rparr>"
    from Cons.prems have "sorted (map rfrom (?cur # rs))" by auto
    then have "sorted_wrt (\<lambda>a b. rto a + 1 < rfrom b) (rangeMergeLoop ?cur rs)"
      by (rule Cons.IH)
    with False show ?thesis by simp
  qed
qed

lemma rangeMergeLoop_valid:
  "isValidRange cur \<Longrightarrow> list_all isValidRange rs \<Longrightarrow>
   list_all isValidRange (rangeMergeLoop cur rs)"
proof (induction rs arbitrary: cur)
  case Nil
  then show ?case by simp
next
  case (Cons r rs)
  show ?case
  proof (cases "rfrom r > rto cur + 1")
    case True
    with Cons show ?thesis by simp
  next
    case False
    have "isValidRange (cur\<lparr>rto := max (rto cur) (rto r)\<rparr>)"
      using Cons.prems(1) by (simp add: isValidRange_def)
    with Cons False show ?thesis by simp
  qed
qed

lemma rangeMerge_blocks: "blocksOf (rangeMerge rs) = blocksOf rs"
proof (cases "rangeSort rs")
  case Nil
  then have "rs = []"
    using rangeSort_set [of rs] by simp
  then show ?thesis by (simp add: rangeMerge_def rangeSort_def)
next
  case (Cons r rest)
  have "sorted (map rfrom (r # rest))"
    using rangeSort_sorted [of rs] Cons by simp
  then have "blocksOf (rangeMergeLoop r rest) = blocksOf (r # rest)"
    by (rule rangeMergeLoop_blocks)
  also have "\<dots> = blocksOf rs"
    using Cons rangeSort_set [of rs] by (intro blocksOf_set_cong) simp
  finally show ?thesis using Cons by (simp add: rangeMerge_def)
qed

lemma rangeMerge_chain: "sorted_wrt (\<lambda>a b. rto a + 1 < rfrom b) (rangeMerge rs)"
proof (cases "rangeSort rs")
  case Nil
  then show ?thesis by (simp add: rangeMerge_def)
next
  case (Cons r rest)
  have "sorted (map rfrom (r # rest))"
    using rangeSort_sorted [of rs] Cons by simp
  then show ?thesis
    using Cons by (simp add: rangeMerge_def rangeMergeLoop_chain)
qed

lemma rangeMerge_valid:
  assumes "list_all isValidRange rs"
  shows "list_all isValidRange (rangeMerge rs)"
proof (cases "rangeSort rs")
  case Nil
  then show ?thesis by (simp add: rangeMerge_def)
next
  case (Cons r rest)
  from assms have "list_all isValidRange (rangeSort rs)"
    using rangeSort_set [of rs] by (simp add: list_all_iff)
  with Cons have "isValidRange r" "list_all isValidRange rest" by simp_all
  then show ?thesis
    using Cons by (simp add: rangeMerge_def rangeMergeLoop_valid)
qed

subsection \<open>The ranges after a sequence of updates\<close>

lemma isMergedSorted_sorted:
  assumes "isMergedSorted rs" and "list_all isValidRange rs"
  shows "sorted_wrt (\<lambda>a b. rfrom a < rfrom b \<and> rto a < rfrom b) rs"
proof -
  have "sorted_wrt (\<lambda>a b. rto a + 1 < rfrom b \<and> isValidRange a) rs"
    using assms by (induction rs) (auto simp: isMergedSorted_def)
  then show ?thesis
    by (rule sorted_wrt_mono_rel [rotated]) (auto simp: isValidRange_def)
qed

lemma mergeImportState_ranges:
  assumes "mergeImportState now items st = Inr st'"
  shows "coveredRanges (ranges st') = rangeMerge (coveredRanges (ranges st) @ map irange items)"
    and "toRetry (ranges st') =
         rangeMerge (rangeArrayExclude (toRetry (ranges st) @ rangeMerge (errorItems items))
                                       (rangeMerge (successItems items)))"
proof -
  from assms obtain item0 rest where items: "items = item0 # rest"
    by (cases items) auto
  from assms show "coveredRanges (ranges st') = rangeMerge (coveredRanges (ranges st) @ map irange items)"
    unfolding items
    by (auto simp: Let_def updateImportRanges_def split: if_splits)
  from assms show "toRetry (ranges st') =
         rangeMerge (rangeArrayExclude (toRetry (ranges st) @ rangeMerge (errorItems items))
                                       (rangeMerge (successItems items)))"
    unfolding items
    by (auto simp: Let_def updateImportRanges_def successItems_def errorItems_def split: if_splits)
qed

lemma mergeImportState_covered_blocks:
  assumes "mergeImportState now items st = Inr st'"
  shows "blocksOf (coveredRanges (ranges st')) =
         blocksOf (coveredRanges (ranges st)) \<union> blocksOf (map irange items)"
  by (simp add: mergeImportState_ranges(1) [OF assms] rangeMerge_blocks blocksOf_append)

lemma mergeImportState_toRetry_blocks:
  assumes "mergeImportState now items st = Inr st'"
  shows "blocksOf (toRetry (ranges st')) =
         (blocksOf (toRetry (ranges st)) \<union> blocksOf (errorItems items)) - blocksOf (successItems items)"
  by (simp add: mergeImportState_ranges(2) [OF assms] rangeMerge_blocks blocksOf_append
        rangeArrayExclude_blocks)

lemma mergeImportState_valid:
  assumes "mergeImportState now items st = Inr st'"
    and "list_all isValidRange (coveredRanges (ranges st))"
    and "list_all isValidRange (toRetry (ranges st))"
    and "list_all isValidRange (map irange items)"
  shows "list_all isValidRange (coveredRanges (ranges st')) \<and>
         list_all isValidRange (toRetry (ranges st'))"
proof
  from assms(2,4) have "list_all isValidRange (coveredRanges (ranges st) @ map irange items)"
    by simp
  then show "list_all isValidRange (coveredRanges (ranges st'))"
    unfolding mergeImportState_ranges(1) [OF assms(1)] by (rule rangeMerge_valid)
next
  from assms(4) have "list_all isValidRange (errorItems items)"
    by (auto simp: errorItems_def list_all_iff)
  then have "list_all isValidRange (rangeMerge (errorItems items))"
    by (rule rangeMerge_valid)
  with assms(3) have "\<forall>r \<in> set (toRetry (ranges st) @ rangeMerge (errorItems items)). isValidRange r"
    by (auto simp: list_all_iff)
  then have "\<forall>p \<in> set (rangeArrayExclude (toRetry (ranges st) @ rangeMerge (errorItems items))
                           (rangeMerge (successItems items))). isValidRange p"
    by (rule rangeArrayExclude_valid)
  then have "list_all isValidRange (rangeArrayExclude (toRetry (ranges st) @ rangeMerge (errorItems items))
                           (rangeMerge (successItems items)))"
    by (simp add: list_all_iff)
  then show "list_all isValidRange (toRetry (ranges st'))"
    unfolding mergeImportState_ranges(2) [OF assms(1)] by (rule rangeMerge_valid)
qed

lemma mergeImportStates_append:
  "mergeImportStates (updates @ [(now, items)]) st =
   (case mergeImportStates updates st of
      Inl e \<Rightarrow> Inl e
    | Inr st1 \<Rightarrow> mergeImportState now items st1)"
  by (induction updates st rule: mergeImportStates.induct) (auto split: sum.splits)

lemma mergeImportStates_covered_blocks:
  "mergeImportStates updates st = Inr st' \<Longrightarrow>
   blocksOf (coveredRanges (ranges st')) =
   blocksOf (coveredRanges (ranges st)) \<union> blocksOf (map irange (concat (map snd updates)))"
proof (induction updates st rule: mergeImportStates.induct)
  case (1 importState)
  then show ?case by simp
next
  case (2 now items updates importState)
  from "2.prems" obtain st1 where st1: "mergeImportState now items importState = Inr st1"
    and rest: "mergeImportStates updates st1 = Inr st'"
    by (auto split: sum.splits)
  from "2.IH" [OF st1 rest] mergeImportState_covered_blocks [OF st1]
  show ?case by (simp add: blocksOf_append Un_assoc)
qed

lemma mergeImportStates_valid:
  "mergeImportStates updates st = Inr st' \<Longrightarrow>
   list_all isValidRange (coveredRanges (ranges st)) \<Longrightarrow>
   list_all isValidRange (toRetry (ranges st)) \<Longrightarrow>
   list_all isValidRange (map irange (concat (map snd updates))) \<Longrightarrow>
   list_all isValidRange (coveredRanges (ranges st')) \<and>
   list_all isValidRange (toRetry (ranges st'))"
proof (induction updates st rule: mergeImportStates.induct)
  case (1 importState)
  then show ?case by simp
next
  case (2 now items updates importState)
  from "2.prems"(1) obtain st1 where st1: "mergeImportState now items importState = Inr st1"
    and rest: "mergeImportStates updates st1 = Inr st'"
    by (auto split: sum.splits)
  from "2.prems"(4) have items: "list_all isValidRange (map irange items)"
    and others: "list_all isValidRange (map irange (concat (map snd updates)))"
    by simp_all
  from mergeImportState_valid [OF st1 "2.prems"(2,3) items]
  have "list_all isValidRange (coveredRanges (ranges st1))"
    and "list_all isValidRange (toRetry (ranges st1))" by simp_all
  with "2.IH" [OF st1 rest] others show ?case by simp
qed

text \<open>
  Claim C2 (amended).  After every sequence of updates of an import state that ends
  with the update \<open>items\<close>: \<open>coveredRanges\<close> and \<open>toRetry\<close> are each merged and sorted;
  \<open>coveredRanges\<close> covers what it covered before and the range of every item of every
  update, whether it succeeded or not; \<open>toRetry\<close> holds no block of a range that
  succeeded in the last update, and holds every block of a range that failed in it and
  did not succeed in it.  When the ranges of the state and of the items have
  \<open>from \<le> to\<close>, so have the new ranges.
\<close>

theorem import_ranges_after_updates:
  assumes "mergeImportStates (updates @ [(now, items)]) st = Inr st'"
  shows "isMergedSorted (coveredRanges (ranges st')) \<and>
         isMergedSorted (toRetry (ranges st')) \<and>
         blocksOf (coveredRanges (ranges st')) =
           blocksOf (coveredRanges (ranges st)) \<union>
           blocksOf (map irange (concat (map snd updates) @ items)) \<and>
         blocksOf (toRetry (ranges st')) \<inter> blocksOf (successItems items) = {} \<and>
         blocksOf (errorItems items) - blocksOf (successItems items)
           \<subseteq> blocksOf (toRetry (ranges st')) \<and>
         (list_all isValidRange (coveredRanges (ranges st)) \<and>
          list_all isValidRange (toRetry (ranges st)) \<and>
          list_all isValidRange (map irange (concat (map snd updates) @ items)) \<longrightarrow>
          list_all isValidRange (coveredRanges (ranges st')) \<and>
          list_all isValidRange (toRetry (ranges st')))"
proof -
  from assms obtain st1 where last: "mergeImportState now items st1 = Inr st'"
    by (auto simp: mergeImportStates_append split: sum.splits)
  have "isMergedSorted (coveredRanges (ranges st'))"
    unfolding isMergedSorted_def mergeImportState_ranges(1) [OF last] by (rule rangeMerge_chain)
  moreover have "isMergedSorted (toRetry (ranges st'))"
    unfolding isMergedSorted_def mergeImportState_ranges(2) [OF last] by (rule rangeMerge_chain)
  moreover have "blocksOf (coveredRanges (ranges st')) =
           blocksOf (coveredRanges (ranges st)) \<union>
           blocksOf (map irange (concat (map snd updates) @ items))"
    using mergeImportStates_covered_blocks [OF assms] by simp
  moreover have "blocksOf (toRetry (ranges st')) \<inter> blocksOf (successItems items) = {}"
    unfolding mergeImportState_toRetry_blocks [OF last] by blast
  moreover have "blocksOf (errorItems items) - blocksOf (successItems items)
           \<subseteq> blocksOf (toRetry (ranges st'))"
    unfolding mergeImportState_toRetry_blocks [OF last] by blast
  moreover have "list_all isValidRange (coveredRanges (ranges st')) \<and>
          list_all isValidRange (toRetry (ranges st'))"
    if "list_all isValidRange (coveredRanges (ranges st)) \<and>
          list_all isValidRange (toRetry (ranges st)) \<and>
          list_all isValidRange (map irange (concat (map snd updates) @ items))"
    using mergeImportStates_valid [OF assms] that by simp
  ultimately show ?thesis by blast
qed

text \<open>
  An import state with nothing covered; a first update reports \<open>[10, 20]\<close> as an error,
  a second one reports \<open>[10, 20]\<close> as a success and \<open>[21, 30]\<close> as an error.
\<close>

theorem import_ranges_after_updates_witness:
  "mergeImportStates
     ([(1, [\<lparr>targetKey = ''product:investment:42'', irange = \<lparr>rfrom = 10, rto = 20\<rparr>,
             rangeIsDate = False, latest = 1000, success = False\<rparr>])]
      @ [(2, [\<lparr>targetKey = ''product:investment:42'', irange = \<lparr>rfrom = 10, rto = 20\<rparr>,
               rangeIsDate = False, latest = 1010, success = True\<rparr>,
              \<lparr>targetKey = ''product:investment:42'', irange = \<lparr>rfrom = 21, rto = 30\<rparr>,
               rangeIsDate = False, latest = 1010, success = False\<rparr>])])
     \<lparr>importKey = ''product:investment:42'', importType = ProductInvestment,
      contractCreatedAtBlock = 10, chainLatestBlockNumber = 0,
      ranges = \<lparr>coveredRanges = [], toRetry = [], lastImportDate = 0\<rparr>\<rparr>
   = Inr \<lparr>importKey = ''product:investment:42'', importType = ProductInvestment,
          contractCreatedAtBlock = 10, chainLatestBlockNumber = 1010,
          ranges = \<lparr>coveredRanges = [\<lparr>rfrom = 10, rto = 30\<rparr>],
                    toRetry = [\<lparr>rfrom = 21, rto = 30\<rparr>], lastImportDate = 2\<rparr>\<rparr> \<and>
   isMergedSorted [\<lparr>rfrom = 10, rto = 30\<rparr>] \<and>
   isMergedSorted [\<lparr>rfrom = 21, rto = 30\<rparr>] \<and>
   blocksOf [\<lparr>rfrom = 21, rto = 30\<rparr>] \<inter> blocksOf [\<lparr>rfrom = 10, rto = 20\<rparr>] = {}"
proof -
  let ?u1 = "[(1 :: int, [\<lparr>targetKey = ''product:investment:42'', irange = \<lparr>rfrom = 10, rto = 20\<rparr>,
             rangeIsDate = False, latest = 1000, success = False\<rparr>])]"
  let ?items = "[\<lparr>targetKey = ''product:investment:42'', irange = \<lparr>rfrom = 10, rto = 20\<rparr>,
               rangeIsDate = False, latest = 1010, success = True\<rparr>,
              \<lparr>targetKey = ''product:investment:42'', irange = \<lparr>rfrom = 21, rto = 30\<rparr>,
               rangeIsDate = False, latest = 1010, success = False\<rparr>]"
  let ?st = "\<lparr>importKey = ''product:investment:42'', importType = ProductInvestment,
      contractCreatedAtBlock = 10, chainLatestBlockNumber = 0,
      ranges = \<lparr>coveredRanges = [], toRetry = [], lastImportDate = 0\<rparr>\<rparr>"
  let ?st' = "\<lparr>importKey = ''product:investment:42'', importType = ProductInvestment,
          contractCreatedAtBlock = 10, chainLatestBlockNumber = 1010,
          ranges = \<lparr>coveredRanges = [\<lparr>rfrom = 10, rto = 30\<rparr>],
                    toRetry = [\<lparr>rfrom = 21, rto = 30\<rparr>], lastImportDate = 2\<rparr>\<rparr>"
  have run: "mergeImportStates (?u1 @ [(2, ?items)]) ?st = Inr ?st'"
    by code_simp
  have succ: "successItems ?items = [\<lparr>rfrom = 10, rto = 20\<rparr>]"
    by (simp add: successItems_def)
  from import_ranges_after_updates [OF run] succ
  have "isMergedSorted [\<lparr>rfrom = 10, rto = 30\<rparr>]"
    and "isMergedSorted [\<lparr>rfrom = 21, rto = 30\<rparr>]"
    and "blocksOf [\<lparr>rfrom = 21, rto = 30\<rparr>] \<inter> blocksOf [\<lparr>rfrom = 10, rto = 20\<rparr>] = {}"
    by simp_all
  with run show ?thesis by blast
qed

text \<open>
  The claim as it is written fails on the first update of the sequence above: the range
  \<open>[10, 20]\<close>, reported as an error, is in \<open>coveredRanges\<close> and in \<open>toRetry\<close>.
\<close>

theorem mergeImportState_error_range_covered_and_retried:
  "mergeImportState 1
     [\<lparr>targetKey = ''product:investment:42'', irange = \<lparr>rfrom = 10, rto = 20\<rparr>,
       rangeIsDate = False, latest = 1000, success = False\<rparr>]
     \<lparr>importKey = ''product:investment:42'', importType = ProductInvestment,
      contractCreatedAtBlock = 10, chainLatestBlockNumber = 0,
      ranges = \<lparr>coveredRanges = [], toRetry = [], lastImportDate = 0\<rparr>\<rparr>
   = Inr \<lparr>importKey = ''product:investment:42'', importType = ProductInvestment,
          contractCreatedAtBlock = 10, chainLatestBlockNumber = 1000,
          ranges = \<lparr>coveredRanges = [\<lparr>rfrom = 10, rto = 20\<rparr>],
                    toRetry = [\<lparr>rfrom = 10, rto = 20\<rparr>], lastImportDate = 1\<rparr>\<rparr> \<and>
   15 \<in> blocksOf [\<lparr>rfrom = 10, rto = 20\<rparr>] \<inter> blocksOf [\<lparr>rfrom = 10, rto = 20\<rparr>]"
proof -
  have "mergeImportState 1
     [\<lparr>targetKey = ''product:investment:42'', irange = \<lparr>rfrom = 10, rto = 20\<rparr>,
       rangeIsDate = False, latest = 1000, success = False\<rparr>]
     \<lparr>importKey = ''product:investment:42'', importType = ProductInvestment,
      contractCreatedAtBlock = 10, chainLatestBlockNumber = 0,
      ranges = \<lparr>coveredRanges = [], toRetry = [], lastImportDate = 0\<rparr>\<rparr>
   = Inr \<lparr>importKey = ''product:investment:42'', importType = ProductInvestment,
          contractCreatedAtBlock = 10, chainLatestBlockNumber = 1000,
          ranges = \<lparr>coveredRanges = [\<lparr>rfrom = 10, rto = 20\<rparr>],
                    toRetry = [\<lparr>rfrom = 10, rto = 20\<rparr>], lastImportDate = 1\<rparr>\<rparr>"
    by code_simp
  moreover have "15 \<in> blocksOf [\<lparr>rfrom = 10, rto = 20\<rparr>] \<inter> blocksOf [\<lparr>rfrom = 10, rto = 20\<rparr>]"
    by (simp add: blocksOf_def isInRange_def)
  ultimately show ?thesis by blast
qed

subsection \<open>The latest block number of the chain\<close>

lemma rangeValueMax_Max: "vs \<noteq> [] \<Longrightarrow> rangeValueMax vs = Some (Max (set vs))"
  by (cases vs) (simp_all add: rangeValueMax_def Max.set_eq_fold [symmetric])

lemma mergeImportState_chainLatestBlockNumber:
  assumes "mergeImportState now items st = Inr st'"
  shows "chainLatestBlockNumber st' =
         (if importType st = OraclePrice then chainLatestBlockNumber st
          else Max (set (chainLatestBlockNumber st # map latest items)))"
proof -
  from assms obtain item0 rest where items: "items = item0 # rest"
    by (cases items) auto
  have mx: "rangeValueMax (map latest items @ [chainLatestBlockNumber st]) =
            Some (Max (set (chainLatestBlockNumber st # map latest items)))"
    by (subst rangeValueMax_Max) (simp_all add: insert_commute)
  show ?thesis
  proof (cases "importType st")
    case OraclePrice
    with assms show ?thesis
      unfolding items
      by (auto simp: Let_def isProductInvestmentImportState_def isOraclePriceImportState_def
            isProductShareRateImportState_def split: if_splits)
  next
    case ProductInvestment
    with assms mx show ?thesis
      unfolding items
      by (auto simp: Let_def isProductInvestmentImportState_def isOraclePriceImportState_def
            isProductShareRateImportState_def split: if_splits)
  next
    case ProductShareRate
    with assms mx show ?thesis
      unfolding items
      by (auto simp: Let_def isProductInvestmentImportState_def isOraclePriceImportState_def
            isProductShareRateImportState_def split: if_splits)
  qed
qed

lemma mergeImportState_chainLatestBlockNumber_mono:
  assumes "mergeImportState now items st = Inr st'"
  shows "chainLatestBlockNumber st \<le> chainLatestBlockNumber st'"
  unfolding mergeImportState_chainLatestBlockNumber [OF assms] by simp

lemma mergeImportStates_chainLatestBlockNumber_mono:
  "mergeImportStates updates st = Inr st' \<Longrightarrow>
   chainLatestBlockNumber st \<le> chainLatestBlockNumber st'"
proof (induction updates st rule: mergeImportStates.induct)
  case (1 importState)
  then show ?case by simp
next
  case (2 now items updates importState)
  from "2.prems" obtain st1 where st1: "mergeImportState now items importState = Inr st1"
    and rest: "mergeImportStates updates st1 = Inr st'"
    by (auto split: sum.splits)
  from mergeImportState_chainLatestBlockNumber_mono [OF st1] "2.IH" [OF st1 rest]
  show ?case by simp
qed

text \<open>
  Claim C9.  An update of a \<open>product:investment\<close> or \<open>product:share-rate\<close> import state
  sets \<open>chainLatestBlockNumber\<close> to the greatest of its previous value and the \<open>latest\<close>
  of the items; and over any sequence of updates of an import state
  \<open>chainLatestBlockNumber\<close> does not decrease.
\<close>

theorem chainLatestBlockNumber_is_max_and_grows:
  "(mergeImportState now items st = Inr st1 \<and> importType st \<noteq> OraclePrice \<longrightarrow>
      chainLatestBlockNumber st1 = Max (set (chainLatestBlockNumber st # map latest items))) \<and>
   (mergeImportStates updates st = Inr st' \<longrightarrow>
      chainLatestBlockNumber st \<le> chainLatestBlockNumber st')"
  using mergeImportState_chainLatestBlockNumber [of now items st st1]
    mergeImportStates_chainLatestBlockNumber_mono [of updates st st']
  by auto

text \<open>
  A share-rate state that knows block 995; an update with items that saw the blocks 1000
  and 990, then an update with an item that saw block 980.
\<close>

theorem chainLatestBlockNumber_is_max_and_grows_witness:
  "mergeImportState 1
     [\<lparr>targetKey = ''price:feed:7'', irange = \<lparr>rfrom = 10, rto = 20\<rparr>,
       rangeIsDate = False, latest = 1000, success = True\<rparr>,
      \<lparr>targetKey = ''price:feed:7'', irange = \<lparr>rfrom = 21, rto = 30\<rparr>,
       rangeIsDate = False, latest = 990, success = True\<rparr>]
     \<lparr>importKey = ''price:feed:7'', importType = ProductShareRate,
      contractCreatedAtBlock = 10, chainLatestBlockNumber = 995,
      ranges = \<lparr>coveredRanges = [], toRetry = [], lastImportDate = 0\<rparr>\<rparr>
   = Inr \<lparr>importKey = ''price:feed:7'', importType = ProductShareRate,
          contractCreatedAtBlock = 10, chainLatestBlockNumber = 1000,
          ranges = \<lparr>coveredRanges = [\<lparr>rfrom = 10, rto = 30\<rparr>], toRetry = [],
                    lastImportDate = 1\<rparr>\<rparr> \<and>
   ProductShareRate \<noteq> OraclePrice \<and>
   (1000 :: int) = Max (set (995 # map latest
     [\<lparr>targetKey = ''price:feed:7'', irange = \<lparr>rfrom = 10, rto = 20\<rparr>,
       rangeIsDate = False, latest = 1000, success = True\<rparr>,
      \<lparr>targetKey = ''price:feed:7'', irange = \<lparr>rfrom = 21, rto = 30\<rparr>,
       rangeIsDate = False, latest = 990, success = True\<rparr>])) \<and>
   mergeImportStates
     [(1, [\<lparr>targetKey = ''price:feed:7'', irange = \<lparr>rfrom = 10, rto = 20\<rparr>,
            rangeIsDate = False, latest = 1000, success = True\<rparr>,
           \<lparr>targetKey = ''price:feed:7'', irange = \<lparr>rfrom = 21, rto = 30\<rparr>,
            rangeIsDate = False, latest = 990, success = True\<rparr>]),
      (2, [\<lparr>targetKey = ''price:feed:7'', irange = \<lparr>rfrom = 31, rto = 40\<rparr>,
            rangeIsDate = False, latest = 980, success = True\<rparr>])]
     \<lparr>importKey = ''price:feed:7'', importType = ProductShareRate,
      contractCreatedAtBlock = 10, chainLatestBlockNumber = 995,
      ranges = \<lparr>coveredRanges = [], toRetry = [], lastImportDate = 0\<rparr>\<rparr>
   = Inr \<lparr>importKey = ''price:feed:7'', importType = ProductShareRate,
          contractCreatedAtBlock = 10, chainLatestBlockNumber = 1000,
          ranges = \<lparr>coveredRanges = [\<lparr>rfrom = 10, rto = 40\<rparr>], toRetry = [],
                    lastImportDate = 2\<rparr>\<rparr> \<and>
   (995 :: int) \<le> 1000"
proof -
  let ?i1 = "\<lparr>targetKey = ''price:feed:7'', irange = \<lparr>rfrom = 10, rto = 20\<rparr>,
       rangeIsDate = False, latest = 1000, success = True\<rparr>"
  let ?i2 = "\<lparr>targetKey = ''price:feed:7'', irange = \<lparr>rfrom = 21, rto = 30\<rparr>,
       rangeIsDate = False, latest = 990, success = True\<rparr>"
  let ?i3 = "\<lparr>targetKey = ''price:feed:7'', irange = \<lparr>rfrom = 31, rto = 40\<rparr>,
            rangeIsDate = False, latest = 980, success = True\<rparr>"
  let ?st = "\<lparr>importKey = ''price:feed:7'', importType = ProductShareRate,
      contractCreatedAtBlock = 10, chainLatestBlockNumber = 995,
      ranges = \<lparr>coveredRanges = [], toRetry = [], lastImportDate = 0\<rparr>\<rparr>"
  let ?st1 = "\<lparr>importKey = ''price:feed:7'', importType = ProductShareRate,
          contractCreatedAtBlock = 10, chainLatestBlockNumber = 1000,
          ranges = \<lparr>coveredRanges = [\<lparr>rfrom = 10, rto = 30\<rparr>], toRetry = [],
                    lastImportDate = 1\<rparr>\<rparr>"
  let ?st2 = "\<lparr>importKey = ''price:feed:7'', importType = ProductShareRate,
          contractCreatedAtBlock = 10, chainLatestBlockNumber = 1000,
          ranges = \<lparr>coveredRanges = [\<lparr>rfrom = 10, rto = 40\<rparr>], toRetry = [],
                    lastImportDate = 2\<rparr>\<rparr>"
  have one: "mergeImportState 1 [?i1, ?i2] ?st = Inr ?st1"
    by code_simp
  have two: "mergeImportStates [(1, [?i1, ?i2]), (2, [?i3])] ?st = Inr ?st2"
    by code_simp
  from chainLatestBlockNumber_is_max_and_grows
         [of 1 "[?i1, ?i2]" ?st ?st1 "[(1, [?i1, ?i2]), (2, [?i3])]" ?st2] one two
  have "(1000 :: int) = Max (set (995 # map latest [?i1, ?i2]))" and "(995 :: int) \<le> 1000"
    by simp_all
  with one two show ?thesis by blast
qed

subsection \<open>Connection timeouts\<close>

text \<open>
  A run of the transaction that throws leaves the table as it was, whatever its
  statements had written.
\<close>

lemma db_transaction_rollback:
  "fst (db_transaction body table) = Inl e \<Longrightarrow> db_transaction body table = (Inl e, table)"
  by (auto simp: db_transaction_def split: prod.splits sum.splits)

lemma updateTransaction_thrown:
  "fst (updateTransaction conn now items db) = Inl e
   \<Longrightarrow> updateTransaction conn now items db = (Inl e, db)"
  unfolding updateTransaction_def by (rule db_transaction_rollback)

lemma backOffLoop_exhausted:
  assumes "\<forall>k < n. request k s = (Inl e, s)" and "retry e"
  shows "k0 < n \<Longrightarrow> backOffLoop n retry request k0 s = (Inl e, n, s)"
proof (induction "n - k0" arbitrary: k0)
  case 0
  then show ?case by simp
next
  case (Suc d)
  from Suc.prems assms(1) have req: "request k0 s = (Inl e, s)" by simp
  show ?case
  proof (cases "k0 + 1 \<ge> n")
    case True
    with Suc.prems have "k0 + 1 = n" by simp
    with req Suc.prems show ?thesis
      by (simp add: backOffLoop.simps [of n retry request k0 s])
  next
    case False
    then have "k0 + 1 < n" by simp
    moreover from Suc.hyps(2) have "d = n - (k0 + 1)" by simp
    ultimately have "backOffLoop n retry request (k0 + 1) s = (Inl e, n, s)"
      using Suc.hyps(1) by blast
    with req False Suc.prems assms(2) show ?thesis
      by (simp add: backOffLoop.simps [of n retry request k0 s])
  qed
qed

lemma backOffLoop_retried:
  assumes "\<forall>k < j. request k s = (Inl e, s)" and "retry e" and "j < n"
    and "\<forall>e'. fst (request j s) = Inl e' \<longrightarrow> \<not> retry e'"
  shows "k0 \<le> j \<Longrightarrow> backOffLoop n retry request k0 s
                    = (fst (request j s), j + 1, snd (request j s))"
proof (induction "j - k0" arbitrary: k0)
  case 0
  then have "k0 = j" by simp
  with assms(3,4) show ?case
    by (cases "request j s"; cases "fst (request j s)")
       (simp_all add: backOffLoop.simps [of n retry request j s])
next
  case (Suc d)
  then have lt: "k0 < j" by simp
  with assms(1) have req: "request k0 s = (Inl e, s)" by simp
  from lt assms(3) have "k0 + 1 < n" by simp
  moreover from Suc.hyps(2) have "d = j - (k0 + 1)" by simp
  moreover from lt have "k0 + 1 \<le> j" by simp
  ultimately have "backOffLoop n retry request (k0 + 1) s
                   = (fst (request j s), j + 1, snd (request j s))"
    using Suc.hyps(1) by blast
  with req \<open>k0 + 1 < n\<close> assms(2) show ?case
    by (simp add: backOffLoop.simps [of n retry request k0 s])
qed

text \<open>
  Claim C8.  A run of the update transaction that ends with a \<open>ConnectionTimeoutError\<close>
  is followed by another run, up to ten runs.  When every one of the ten runs ends with
  a \<open>ConnectionTimeoutError\<close>, ten runs are made, \<open>emitErrors\<close> is called for every item of
  the group, nothing is sent downstream, no error is thrown on and the table of import
  states is as it was, whatever the runs had written before they timed out.  When the
  first \<open>j\<close> runs end with a \<open>ConnectionTimeoutError\<close> and run \<open>j\<close>, one of the ten, does not,
  \<open>j + 1\<close> runs are made and run \<open>j\<close> decides: its new states are formatted and sent
  downstream and its table is kept, or its error is thrown on with the table as it was;
  \<open>emitErrors\<close> is not called.  (The delays between the runs are not part of the model.)
\<close>

theorem updateImportState_timeouts_retried:
  "((\<forall>k < 10. fst (updateTransaction (conn k) now items db) = Inl ConnectionTimeoutError)
    \<longrightarrow> updateImportState formatOutput conn now db items =
          \<lparr>upd_outputs = [], upd_emitErrors = items, upd_thrown = None,
           upd_table = db, upd_attempts = 10\<rparr>) \<and>
   (j < 10 \<and>
    (\<forall>k < j. fst (updateTransaction (conn k) now items db) = Inl ConnectionTimeoutError) \<and>
    fst (updateTransaction (conn j) now items db) \<noteq> Inl ConnectionTimeoutError
    \<longrightarrow> updateImportState formatOutput conn now db items =
          (case updateTransaction (conn j) now items db of
             (Inr newImportStates, db') \<Rightarrow>
               (case formatUpdated formatOutput (keyByImportKey newImportStates) items of
                  Inr outs \<Rightarrow> \<lparr>upd_outputs = outs, upd_emitErrors = [], upd_thrown = None,
                               upd_table = db', upd_attempts = j + 1\<rparr>
                | Inl e \<Rightarrow> \<lparr>upd_outputs = [], upd_emitErrors = [], upd_thrown = Some e,
                            upd_table = db', upd_attempts = j + 1\<rparr>)
           | (Inl error, db') \<Rightarrow>
               \<lparr>upd_outputs = [], upd_emitErrors = [], upd_thrown = Some error,
                upd_table = db, upd_attempts = j + 1\<rparr>))"
proof (intro conjI impI)
  let ?retry = "\<lambda>error. error = ConnectionTimeoutError"
  let ?request = "\<lambda>k. updateTransaction (conn k) now items"
  assume "\<forall>k < 10. fst (?request k db) = Inl ConnectionTimeoutError"
  then have "\<forall>k < 10. ?request k db = (Inl ConnectionTimeoutError, db)"
    by (simp add: updateTransaction_thrown)
  then have "backOffLoop 10 ?retry ?request 0 db = (Inl ConnectionTimeoutError, 10, db)"
    by (intro backOffLoop_exhausted) simp_all
  then show "updateImportState formatOutput conn now db items =
             \<lparr>upd_outputs = [], upd_emitErrors = items, upd_thrown = None,
              upd_table = db, upd_attempts = 10\<rparr>"
    by (simp add: updateImportState_def backOff_def)
next
  let ?retry = "\<lambda>error. error = ConnectionTimeoutError"
  let ?request = "\<lambda>k. updateTransaction (conn k) now items"
  assume hyp: "j < 10 \<and>
    (\<forall>k < j. fst (?request k db) = Inl ConnectionTimeoutError) \<and>
    fst (?request j db) \<noteq> Inl ConnectionTimeoutError"
  then have "\<forall>k < j. ?request k db = (Inl ConnectionTimeoutError, db)"
    by (simp add: updateTransaction_thrown)
  moreover from hyp have "\<forall>e'. fst (?request j db) = Inl e' \<longrightarrow> \<not> ?retry e'"
    by auto
  ultimately have loop: "backOffLoop 10 ?retry ?request 0 db
                   = (fst (?request j db), j + 1, snd (?request j db))"
    using hyp by (intro backOffLoop_retried) simp_all
  show "updateImportState formatOutput conn now db items =
        (case ?request j db of
           (Inr newImportStates, db') \<Rightarrow>
             (case formatUpdated formatOutput (keyByImportKey newImportStates) items of
                Inr outs \<Rightarrow> \<lparr>upd_outputs = outs, upd_emitErrors = [], upd_thrown = None,
                             upd_table = db', upd_attempts = j + 1\<rparr>
              | Inl e \<Rightarrow> \<lparr>upd_outputs = [], upd_emitErrors = [], upd_thrown = Some e,
                          upd_table = db', upd_attempts = j + 1\<rparr>)
         | (Inl error, db') \<Rightarrow>
             \<lparr>upd_outputs = [], upd_emitErrors = [], upd_thrown = Some error,
              upd_table = db, upd_attempts = j + 1\<rparr>)"
  proof (cases "fst (?request j db)")
    case (Inl error)
    with hyp have "error \<noteq> ConnectionTimeoutError" by auto
    moreover from Inl have "?request j db = (Inl error, db)"
      by (rule updateTransaction_thrown)
    ultimately show ?thesis
      using loop by (simp add: updateImportState_def backOff_def)
  next
    case (Inr newImportStates)
    then obtain db' where "?request j db = (Inr newImportStates, db')"
      by (cases "?request j db") simp
    then show ?thesis
      using loop by (simp add: updateImportState_def backOff_def split: sum.splits)
  qed
qed

text \<open>
  Two items of one import key whose row exists.  A run that times out when its \<open>UPDATE\<close>
  has been executed has written the row, and the rollback takes the write back.
\<close>

lemma updateTransaction_rolls_back_written_row:
  "(let db = [''product:investment:42'' \<mapsto>
                \<lparr>importKey = ''product:investment:42'', importType = ProductInvestment,
                 contractCreatedAtBlock = 10, chainLatestBlockNumber = 0,
                 ranges = \<lparr>coveredRanges = [], toRetry = [], lastImportDate = 0\<rparr>\<rparr>];
        items = [\<lparr>targetKey = ''product:investment:42'', irange = \<lparr>rfrom = 10, rto = 20\<rparr>,
                  rangeIsDate = False, latest = 1000, success = True\<rparr>,
                 \<lparr>targetKey = ''product:investment:42'', irange = \<lparr>rfrom = 21, rto = 30\<rparr>,
                  rangeIsDate = False, latest = 1000, success = False\<rparr>]
    in (fst (transactionBody (TimesOut 1) 7 items db),
        map_option chainLatestBlockNumber
          (snd (transactionBody (TimesOut 1) 7 items db) ''product:investment:42''),
        fst (updateTransaction (TimesOut 1) 7 items db),
        map_option chainLatestBlockNumber
          (snd (updateTransaction (TimesOut 1) 7 items db) ''product:investment:42'')))
   = (Inl ConnectionTimeoutError, Some 1000, Inl ConnectionTimeoutError, Some 0)"
  by code_simp

text \<open>
  The same group when every run times out after its \<open>UPDATE\<close>: ten runs, \<open>emitErrors\<close> for
  both items, the table as before.  And when the first three runs time out so and the
  connection of the fourth holds: four runs, both items are sent downstream and the row
  holds the merged ranges.
\<close>

theorem updateImportState_timeouts_retried_witness:
  "list_all
     (\<lambda>k. fst (updateTransaction ((\<lambda>k :: nat. TimesOut 1) k) 7
              [\<lparr>targetKey = ''product:investment:42'', irange = \<lparr>rfrom = 10, rto = 20\<rparr>,
                rangeIsDate = False, latest = 1000, success = True\<rparr>,
               \<lparr>targetKey = ''product:investment:42'', irange = \<lparr>rfrom = 21, rto = 30\<rparr>,
                rangeIsDate = False, latest = 1000, success = False\<rparr>]
              [''product:investment:42'' \<mapsto>
                 \<lparr>importKey = ''product:investment:42'', importType = ProductInvestment,
                  contractCreatedAtBlock = 10, chainLatestBlockNumber = 0,
                  ranges = \<lparr>coveredRanges = [], toRetry = [], lastImportDate = 0\<rparr>\<rparr>])
           = Inl ConnectionTimeoutError) [0 ..< 10] \<and>
   updateImportState (\<lambda>item importState. (irange item, chainLatestBlockNumber importState))
     (\<lambda>k. TimesOut 1) 7
     [''product:investment:42'' \<mapsto>
        \<lparr>importKey = ''product:investment:42'', importType = ProductInvestment,
         contractCreatedAtBlock = 10, chainLatestBlockNumber = 0,
         ranges = \<lparr>coveredRanges = [], toRetry = [], lastImportDate = 0\<rparr>\<rparr>]
     [\<lparr>targetKey = ''product:investment:42'', irange = \<lparr>rfrom = 10, rto = 20\<rparr>,
       rangeIsDate = False, latest = 1000, success = True\<rparr>,
      \<lparr>targetKey = ''product:investment:42'', irange = \<lparr>rfrom = 21, rto = 30\<rparr>,
       rangeIsDate = False, latest = 1000, success = False\<rparr>]
   = \<lparr>upd_outputs = [],
      upd_emitErrors =
        [\<lparr>targetKey = ''product:investment:42'', irange = \<lparr>rfrom = 10, rto = 20\<rparr>,
          rangeIsDate = False, latest = 1000, success = True\<rparr>,
         \<lparr>targetKey = ''product:investment:42'', irange = \<lparr>rfrom = 21, rto = 30\<rparr>,
          rangeIsDate = False, latest = 1000, success = False\<rparr>],
      upd_thrown = None,
      upd_table = [''product:investment:42'' \<mapsto>
        \<lparr>importKey = ''product:investment:42'', importType = ProductInvestment,
         contractCreatedAtBlock = 10, chainLatestBlockNumber = 0,
         ranges = \<lparr>coveredRanges = [], toRetry = [], lastImportDate = 0\<rparr>\<rparr>],
      upd_attempts = 10\<rparr> \<and>
   (3 :: nat) < 10 \<and>
   list_all
     (\<lambda>k. fst (updateTransaction ((\<lambda>k :: nat. if k < 3 then TimesOut 1 else Connects) k) 7
              [\<lparr>targetKey = ''product:investment:42'', irange = \<lparr>rfrom = 10, rto = 20\<rparr>,
                rangeIsDate = False, latest = 1000, success = True\<rparr>,
               \<lparr>targetKey = ''product:investment:42'', irange = \<lparr>rfrom = 21, rto = 30\<rparr>,
                rangeIsDate = False, latest = 1000, success = False\<rparr>]
              [''product:investment:42'' \<mapsto>
                 \<lparr>importKey = ''product:investment:42'', importType = ProductInvestment,
                  contractCreatedAtBlock = 10, chainLatestBlockNumber = 0,
                  ranges = \<lparr>coveredRanges = [], toRetry = [], lastImportDate = 0\<rparr>\<rparr>])
           = Inl ConnectionTimeoutError) [0 ..< 3] \<and>
   fst (updateTransaction ((\<lambda>k :: nat. if k < 3 then TimesOut 1 else Connects) 3) 7
          [\<lparr>targetKey = ''product:investment:42'', irange = \<lparr>rfrom = 10, rto = 20\<rparr>,
            rangeIsDate = False, latest = 1000, success = True\<rparr>,
           \<lparr>targetKey = ''product:investment:42'', irange = \<lparr>rfrom = 21, rto = 30\<rparr>,
            rangeIsDate = False, latest = 1000, success = False\<rparr>]
          [''product:investment:42'' \<mapsto>
             \<lparr>importKey = ''product:investment:42'', importType = ProductInvestment,
              contractCreatedAtBlock = 10, chainLatestBlockNumber = 0,
              ranges = \<lparr>coveredRanges = [], toRetry = [], lastImportDate = 0\<rparr>\<rparr>])
     \<noteq> Inl ConnectionTimeoutError \<and>
   (let r = updateImportState
              (\<lambda>item importState. (irange item, chainLatestBlockNumber importState))
              (\<lambda>k. if k < 3 then TimesOut 1 else Connects) 7
              [''product:investment:42'' \<mapsto>
                 \<lparr>importKey = ''product:investment:42'', importType = ProductInvestment,
                  contractCreatedAtBlock = 10, chainLatestBlockNumber = 0,
                  ranges = \<lparr>coveredRanges = [], toRetry = [], lastImportDate = 0\<rparr>\<rparr>]
              [\<lparr>targetKey = ''product:investment:42'', irange = \<lparr>rfrom = 10, rto = 20\<rparr>,
                rangeIsDate = False, latest = 1000, success = True\<rparr>,
               \<lparr>targetKey = ''product:investment:42'', irange = \<lparr>rfrom = 21, rto = 30\<rparr>,
                rangeIsDate = False, latest = 1000, success = False\<rparr>]
    in (upd_outputs r, upd_emitErrors r, upd_thrown r, upd_attempts r,
        upd_table r ''product:investment:42''))
   = ([(\<lparr>rfrom = 10, rto = 20\<rparr>, 1000), (\<lparr>rfrom = 21, rto = 30\<rparr>, 1000)], [], None, 4,
      Some \<lparr>importKey = ''product:investment:42'', importType = ProductInvestment,
            contractCreatedAtBlock = 10, chainLatestBlockNumber = 1000,
            ranges = \<lparr>coveredRanges = [\<lparr>rfrom = 10, rto = 30\<rparr>],
                      toRetry = [\<lparr>rfrom = 21, rto = 30\<rparr>], lastImportDate = 7\<rparr>\<rparr>)"
proof -
  let ?fo = "\<lambda>item importState. (irange item, chainLatestBlockNumber importState)"
  let ?db = "[''product:investment:42'' \<mapsto>
        \<lparr>importKey = ''product:investment:42'', importType = ProductInvestment,
         contractCreatedAtBlock = 10, chainLatestBlockNumber = 0,
         ranges = \<lparr>coveredRanges = [], toRetry = [], lastImportDate = 0\<rparr>\<rparr>]"
  let ?items = "[\<lparr>targetKey = ''product:investment:42'', irange = \<lparr>rfrom = 10, rto = 20\<rparr>,
       rangeIsDate = False, latest = 1000, success = True\<rparr>,
      \<lparr>targetKey = ''product:investment:42'', irange = \<lparr>rfrom = 21, rto = 30\<rparr>,
       rangeIsDate = False, latest = 1000, success = False\<rparr>]"
  let ?new = "\<lparr>importKey = ''product:investment:42'', importType = ProductInvestment,
            contractCreatedAtBlock = 10, chainLatestBlockNumber = 1000,
            ranges = \<lparr>coveredRanges = [\<lparr>rfrom = 10, rto = 30\<rparr>],
                      toRetry = [\<lparr>rfrom = 21, rto = 30\<rparr>], lastImportDate = 7\<rparr>\<rparr>"
  let ?always = "\<lambda>k :: nat. TimesOut 1"
  let ?thrice = "\<lambda>k :: nat. if k < 3 then TimesOut 1 else Connects"
  have timeout: "fst (updateTransaction (TimesOut 1) 7 ?items ?db) = Inl ConnectionTimeoutError"
    by code_simp
  have holds: "fst (updateTransaction Connects 7 ?items ?db) = Inr [?new]"
    by code_simp
  have row: "snd (updateTransaction Connects 7 ?items ?db) ''product:investment:42'' = Some ?new"
    by code_simp
  have outs: "formatUpdated ?fo (keyByImportKey [?new]) ?items
              = Inr [(\<lparr>rfrom = 10, rto = 20\<rparr>, 1000), (\<lparr>rfrom = 21, rto = 30\<rparr>, 1000)]"
    by code_simp
  have all10: "\<forall>k < 10. fst (updateTransaction (?always k) 7 ?items ?db)
                         = Inl ConnectionTimeoutError"
    using timeout by simp
  have all3: "\<forall>k < 3. fst (updateTransaction (?thrice k) 7 ?items ?db)
                       = Inl ConnectionTimeoutError"
    using timeout by simp
  have fourth: "fst (updateTransaction (?thrice 3) 7 ?items ?db) \<noteq> Inl ConnectionTimeoutError"
    using holds by simp
  from updateImportState_timeouts_retried [of ?always 7 ?items ?db ?fo 0] all10
  have exhausted: "updateImportState ?fo ?always 7 ?db ?items =
      \<lparr>upd_outputs = [], upd_emitErrors = ?items, upd_thrown = None,
       upd_table = ?db, upd_attempts = 10\<rparr>"
    by blast
  obtain db' where run: "updateTransaction Connects 7 ?items ?db = (Inr [?new], db')"
    using holds by (cases "updateTransaction Connects 7 ?items ?db") simp
  with row have row': "db' ''product:investment:42'' = Some ?new" by simp
  from updateImportState_timeouts_retried [of ?thrice 7 ?items ?db ?fo 3] all3 fourth
  have "updateImportState ?fo ?thrice 7 ?db ?items =
        (case updateTransaction (?thrice 3) 7 ?items ?db of
           (Inr newImportStates, db') \<Rightarrow>
             (case formatUpdated ?fo (keyByImportKey newImportStates) ?items of
                Inr outs \<Rightarrow> \<lparr>upd_outputs = outs, upd_emitErrors = [], upd_thrown = None,
                             upd_table = db', upd_attempts = 3 + 1\<rparr>
              | Inl e \<Rightarrow> \<lparr>upd_outputs = [], upd_emitErrors = [], upd_thrown = Some e,
                          upd_table = db', upd_attempts = 3 + 1\<rparr>)
         | (Inl error, db') \<Rightarrow>
             \<lparr>upd_outputs = [], upd_emitErrors = [], upd_thrown = Some error,
              upd_table = ?db, upd_attempts = 3 + 1\<rparr>)"
    by simp
  with run outs
  have retried: "updateImportState ?fo ?thrice 7 ?db ?items =
        \<lparr>upd_outputs = [(\<lparr>rfrom = 10, rto = 20\<rparr>, 1000), (\<lparr>rfrom = 21, rto = 30\<rparr>, 1000)],
         upd_emitErrors = [], upd_thrown = None, upd_table = db', upd_attempts = 4\<rparr>"
    by simp
  have l10: "list_all (\<lambda>k. fst (updateTransaction (?always k) 7 ?items ?db)
                           = Inl ConnectionTimeoutError) [0 ..< 10]"
    using all10 by (simp add: list_all_iff)
  have l3: "list_all (\<lambda>k. fst (updateTransaction (?thrice k) 7 ?items ?db)
                          = Inl ConnectionTimeoutError) [0 ..< 3]"
    using all3 by (simp add: list_all_iff)
  have last: "(let r = updateImportState ?fo ?thrice 7 ?db ?items
               in (upd_outputs r, upd_emitErrors r, upd_thrown r, upd_attempts r,
                   upd_table r ''product:investment:42''))
              = ([(\<lparr>rfrom = 10, rto = 20\<rparr>, 1000), (\<lparr>rfrom = 21, rto = 30\<rparr>, 1000)], [], None, 4,
                 Some ?new)"
    unfolding retried Let_def using row' by simp
  from l10 exhausted l3 fourth last show ?thesis
    by (intro conjI) simp_all
qed

section \<open>The import status of the earlier schema\<close>

text \<open>
  In this schema too a range that failed is covered and to retry: a status that covers
  \<open>[10, 15]\<close>, updated with the failed range \<open>[12, 20]\<close>.
\<close>

lemma mergeImportStatus_chainLatestBlockNumber:
  assumes "items \<noteq> []"
  shows "status_chainLatestBlockNumber (mergeImportStatus items importStatus) =
         Max (set (status_chainLatestBlockNumber importStatus # map latestBlockNumber items))"
proof -
  from assms obtain item0 rest where items: "items = item0 # rest"
    by (cases items) auto
  have "lodashMax (map latestBlockNumber items) = Some (Max (set (map latestBlockNumber items)))"
    unfolding items by (simp add: lodashMax_def Max.set_eq_fold [symmetric])
  then show ?thesis
    unfolding items
    by (simp add: mergeImportStatus_def Let_def max.commute)
qed

lemma mergeImportStatus_error_range_covered_and_retried:
  "mergeImportStatus
     [\<lparr>blockRange = \<lparr>rfrom = 12, rto = 20\<rparr>, latestBlockNumber = 1000, querySuccess = False\<rparr>]
     \<lparr>status_chainLatestBlockNumber = 900, status_contractCreatedAtBlock = 10,
      coveredBlockRange = \<lparr>rfrom = 10, rto = 15\<rparr>, blockRangesToRetry = []\<rparr>
   = \<lparr>status_chainLatestBlockNumber = 1000, status_contractCreatedAtBlock = 10,
      coveredBlockRange = \<lparr>rfrom = 10, rto = 20\<rparr>,
      blockRangesToRetry = [\<lparr>rfrom = 12, rto = 20\<rparr>]\<rparr>"
  by code_simp

end
